theory Spec2Isabelle
  imports Main "HOL-Library.AList" "HOL-Library.Multiset"
begin

section \<open>The document tree as the code reads it\<close>

text \<open>
  A node of the host's document is a JavaScript object; the code only ever holds
  references to such objects and reads their properties. A reference is a number and
  the document is a total function from references to the properties the two source
  files read (every JavaScript reference denotes an object, so nothing dangles).
  A property that holds \<open>null\<close> (or is absent on that kind of node) is \<open>None\<close>.
  Where the code looks at a property only through a test, the field holds what the test
  sees: \<open>nativeConstructor\<close> says whether the constructor of a shadow root is a function
  whose text contains \<open>[native code]\<close>, \<open>dataset\<close> holds the keys of the data set, and
  \<open>sheet\<close> holds what reading \<open>cssRules\<close> of the style sheet gives: the texts of the
  rules, or what the read throws.

  Strings are lists of 8-bit characters, read as the code units U+0000 to U+00FF.
  Numbers that count (identifiers, indices) are natural numbers; JavaScript's doubles
  are exact on them below \<open>2^53\<close>, which no counter of a recording session reaches.
\<close>

type_synonym ref = nat

text \<open>What a \<open>throw\<close> carries: a falsy value, or an object with its \<open>name\<close> property.\<close>

datatype thrown = Falsy | Thrown (ename: "string option")

abbreviation TypeError :: thrown where
  "TypeError \<equiv> Thrown (Some ''TypeError'')"

text \<open>The \<open>protocol\<close>, \<open>host\<close> and \<open>pathname\<close> of a \<open>Location\<close> or of an anchor element.\<close>

record location =
  protocol :: string
  host :: string
  pathname :: string

record dom_node =
  nodeType :: nat
  parentElement :: "ref option"
  parentNode :: "ref option"
  firstChild :: "ref option"
  nextSibling :: "ref option"
  previousSibling :: "ref option"
  ownerDocument :: "ref option"
  nodeValue :: "string option"
  tagName :: string
  namespaceURI :: "string option"
  attributes :: "(string \<times> string) list"
  doctype_name :: string
  publicId :: string
  systemId :: string
  documentElement :: "ref option"
  readyState :: string
  doc_location :: "location option"
  shadow_host :: "ref option"
  nativeConstructor :: bool
  shadowRoot :: "ref option"
  script_text :: string
  contentDocument :: "ref option"
  contentWindow :: "ref option"
  textContent :: "string option"
  dataset :: "string list option"
  element_id :: string
  sheet :: "(thrown + string list) option"
  input_value :: string

type_synonym dom = "ref \<Rightarrow> dom_node"

definition ELEMENT_NODE :: nat where "ELEMENT_NODE = 1"
definition TEXT_NODE :: nat where "TEXT_NODE = 3"
definition DOCUMENT_NODE :: nat where "DOCUMENT_NODE = 9"
definition DOCUMENT_TYPE_NODE :: nat where "DOCUMENT_TYPE_NODE = 10"
definition DOCUMENT_FRAGMENT_NODE :: nat where "DOCUMENT_FRAGMENT_NODE = 11"

section \<open>insight/snapshot.ts\<close>

subsection \<open>Records and module state\<close>

text \<open>
  A plain object used as a dictionary from attribute names to strings: an association
  list in insertion order. Assigning a string to the key \<open>__proto__\<close> of an object
  literal reaches the setter inherited from \<open>Object.prototype\<close>, which ignores a
  value that is not an object, so that assignment creates no property.
\<close>

type_synonym obj = "(string \<times> string) list"

definition obj_set :: "obj \<Rightarrow> string \<Rightarrow> string \<Rightarrow> obj" where
  "obj_set output k v = (if k = ''__proto__'' then output else AList.update k v output)"

text \<open>\<open>NodeInfo\<close>: the fields \<open>tag\<close>, \<open>attributes\<close> and \<open>value\<close> of the data of a record.\<close>

record NodeInfo =
  tag :: "string option"
  attributes' :: "obj option"
  value' :: "string option"

text \<open>An identifier read from the registry: \<open>null\<close>, \<open>undefined\<close> or a number.\<close>

datatype idref = Null | Undefined | Num nat

text \<open>
  Modelled from the spec: the enumeration \<open>Privacy\<close> of \<open>@clarity-types/core\<close> is declared
  outside the sources; the spec speaks of the privacy classification tag that a record
  carries, and these are the two members the code names.
\<close>

datatype Privacy = Snapshot | Sensitive

record NodeMeta =
  active :: bool
  suspend :: bool
  privacy :: Privacy
  position :: "nat option"
  fraud :: "nat option"
  size' :: "nat option"

record NodeValue =
  id' :: "nat option"
  parent :: idref
  previous :: idref
  children :: "nat list"
  data :: NodeInfo
  selector :: "string option"
  hash :: "string option"
  region :: "nat option"
  metadata' :: NodeMeta

text \<open>
  The module's variables: \<open>values\<close>, \<open>index\<close> and \<open>idMap\<close> (\<open>null\<close> until the first
  \<open>reset\<close>). The weak map from nodes to numbers is a partial function on references.
\<close>

record snapshot_state =
  index :: nat
  idMap :: "(ref \<rightharpoonup> nat) option"
  values' :: "NodeValue list"

definition initial :: snapshot_state where
  "initial = \<lparr>index = 1, idMap = None, values' = []\<rparr>"

definition reset :: "snapshot_state \<Rightarrow> snapshot_state" where
  "reset s = s\<lparr>idMap := Some Map.empty\<rparr>"

subsection \<open>getId\<close>

definition getId :: "ref option \<Rightarrow> snapshot_state \<Rightarrow> thrown + (nat option \<times> snapshot_state)" where
  "getId node s =
     (case node of
        None \<Rightarrow> Inr (None, s)
      | Some n \<Rightarrow>
          (case idMap s of
             None \<Rightarrow> Inl TypeError
           | Some m \<Rightarrow>
               (case m n of
                  Some i \<Rightarrow> Inr (Some i, s)
                | None \<Rightarrow>
                    Inr (Some (index s),
                         s\<lparr>idMap := Some (m(n \<mapsto> index s)), index := index s + 1\<rparr>))))"

text \<open>
  The calls that \<open>getId\<close> receives, one after the other, each on the state the one
  before left: \<open>start\<close>, \<open>metadata\<close> and \<open>add\<close> change the registry through \<open>getId\<close> only.
\<close>

fun getIds :: "ref list \<Rightarrow> snapshot_state \<Rightarrow> thrown + (nat option list \<times> snapshot_state)" where
  "getIds [] s = Inr ([], s)"
| "getIds (n # ns) s =
     (case getId (Some n) s of
        Inl e \<Rightarrow> Inl e
      | Inr (i, s1) \<Rightarrow>
          (case getIds ns s1 of
             Inl e \<Rightarrow> Inl e
           | Inr (ids, s2) \<Rightarrow> Inr (i # ids, s2)))"

subsection \<open>Constants\<close>

text \<open>
  Modelled from the spec: the members of the constant enumeration \<open>Constant\<close> of
  \<open>@clarity-types/layout\<close>, whose declaration is not among the sources. The spec names
  the attribute keys and the recognised values (\<open>property\<close>, \<open>name\<close>, \<open>content\<close>,
  \<open>og:title\<close>, \<open>og:type\<close>, \<open>generator\<close>, \<open>value\<close>, \<open>INPUT\<close>, \<open>base\<close> and the
  pseudo-element tag \<open>DOCUMENT_TYPE\<close>). Of the marker tags and prefixes it says only
  that they are there; each is a fixed non-empty string here, and no property below
  rests on more than that.
\<close>

definition Constant_Empty :: string where "Constant_Empty = []"
definition Constant_DocumentTag :: string where "Constant_DocumentTag = ''DOCUMENT_TYPE''"
definition Constant_TextTag :: string where "Constant_TextTag = ''*T''"
definition Constant_ShadowDomTag :: string where "Constant_ShadowDomTag = ''*S''"
definition Constant_PolyfillShadowDomTag :: string where "Constant_PolyfillShadowDomTag = ''*P''"
definition Constant_IFramePrefix :: string where "Constant_IFramePrefix = ''iframe:''"
definition Constant_SvgPrefix :: string where "Constant_SvgPrefix = ''svg:''"
definition Constant_SvgNamespace :: string where
  "Constant_SvgNamespace = ''http://www.w3.org/2000/svg''"
definition Constant_HTML :: string where "Constant_HTML = ''HTML''"
definition Constant_Type :: string where "Constant_Type = ''type''"
definition Constant_JsonLD :: string where "Constant_JsonLD = ''application/ld+json''"
definition Constant_Property :: string where "Constant_Property = ''property''"
definition Constant_Name :: string where "Constant_Name = ''name''"
definition Constant_Content :: string where "Constant_Content = ''content''"
definition Constant_ogTitle :: string where "Constant_ogTitle = ''og:title''"
definition Constant_ogType :: string where "Constant_ogType = ''og:type''"
definition Constant_Generator :: string where "Constant_Generator = ''generator''"
definition Constant_Base :: string where "Constant_Base = ''base''"
definition Constant_SameOrigin :: string where "Constant_SameOrigin = ''*O''"
definition Constant_StyleSheet :: string where "Constant_StyleSheet = ''stylesheet''"
definition Constant_Src :: string where "Constant_Src = ''src''"
definition Constant_Value :: string where "Constant_Value = ''value''"
definition Constant_InputTag :: string where "Constant_InputTag = ''INPUT''"

subsection \<open>start, target, metadata\<close>

text \<open>
  \<open>start\<close>: \<open>reset\<close>, then the identifier of \<open>document.documentElement\<close> is allocated.
  The calls to the document and interaction modules leave this module's state alone.
\<close>

definition start :: "dom \<Rightarrow> ref \<Rightarrow> snapshot_state \<Rightarrow> thrown + snapshot_state" where
  "start h document s =
     (case getId (documentElement (h document)) (reset s) of
        Inl e \<Rightarrow> Inl e
      | Inr (i, s1) \<Rightarrow> Inr s1)"

definition stop :: "snapshot_state \<Rightarrow> snapshot_state" where
  "stop s = reset s"

text \<open>
  A \<open>UIEvent\<close>: its \<open>composed\<close> flag, what \<open>composedPath()\<close> returns (\<open>None\<close> where the
  host has no such method) and its \<open>target\<close>.
\<close>

record UIEvent =
  evt_composed :: bool
  evt_composedPath :: "ref list option"
  evt_target :: "ref option"

definition target :: "dom \<Rightarrow> UIEvent \<Rightarrow> thrown + ref option" where
  "target h evt =
     (let path = (if evt_composed evt \<and> evt_composedPath evt \<noteq> None
                  then evt_composedPath evt else None);
          node = (case path of
                    Some (p # ps) \<Rightarrow> Some p
                  | _ \<Rightarrow> evt_target evt)
      in case node of
           None \<Rightarrow> Inl TypeError
         | Some n \<Rightarrow>
             if nodeType (h n) = DOCUMENT_NODE then Inr (documentElement (h n))
             else Inr (Some n))"

record TargetMetadata =
  tm_id :: "nat option"
  tm_hash :: "string option"
  tm_privacy :: Privacy

text \<open>\<open>metadata\<close>; the flag is \<open>config.conversions\<close>.\<close>

definition metadata :: "bool \<Rightarrow> ref option \<Rightarrow> snapshot_state \<Rightarrow> thrown + (TargetMetadata \<times> snapshot_state)" where
  "metadata conversions node s =
     (let output = \<lparr>tm_id = Some 0, tm_hash = None,
                     tm_privacy = (if conversions then Sensitive else Snapshot)\<rparr>
      in case node of
           None \<Rightarrow> Inr (output, s)
         | Some n \<Rightarrow>
             (case idMap s of
                None \<Rightarrow> Inl TypeError
              | Some m \<Rightarrow>
                  (case m n of
                     Some i \<Rightarrow> Inr (output\<lparr>tm_id := Some i\<rparr>, s)
                   | None \<Rightarrow>
                       (case getId (Some n) s of
                          Inl e \<Rightarrow> Inl e
                        | Inr (i, s1) \<Rightarrow> Inr (output\<lparr>tm_id := i\<rparr>, s1)))))"

subsection \<open>The snapshot traversal\<close>

text \<open>\<open>getAttributes\<close> of the snapshot module: every attribute, in the order read.\<close>

definition snapshot_getAttributes :: "dom \<Rightarrow> ref \<Rightarrow> obj" where
  "snapshot_getAttributes h element =
     foldl (\<lambda>output a. obj_set output (fst a) (snd a)) [] (attributes (h element))"

definition idMap_get :: "(ref \<rightharpoonup> nat) \<Rightarrow> ref option \<Rightarrow> idref" where
  "idMap_get m node =
     (case node of
        None \<Rightarrow> Undefined
      | Some n \<Rightarrow> (case m n of None \<Rightarrow> Undefined | Some i \<Rightarrow> Num i))"

text \<open>What JavaScript takes for true: a number other than 0, a string other than the empty one.\<close>

fun truthy_id :: "idref \<Rightarrow> bool" where
  "truthy_id (Num i) = (i \<noteq> 0)"
| "truthy_id _ = False"

fun truthy_tag :: "string option \<Rightarrow> bool" where
  "truthy_tag (Some t) = (t \<noteq> [])"
| "truthy_tag None = False"

definition add :: "dom \<Rightarrow> ref option \<Rightarrow> ref option \<Rightarrow> NodeInfo option \<Rightarrow> snapshot_state
    \<Rightarrow> thrown + snapshot_state" where
  "add h node parent' data' s =
     (case (node, data') of
        (Some n, Some d) \<Rightarrow>
          if truthy_tag (tag d) then
            (case getId (Some n) s of
               Inl e \<Rightarrow> Inl e
             | Inr (i, s1) \<Rightarrow>
                 (case idMap s1 of
                    None \<Rightarrow> Inl TypeError
                  | Some m \<Rightarrow>
                      (let parentId = (case parent' of None \<Rightarrow> Null | Some p \<Rightarrow> idMap_get m (Some p));
                           previous' = (case previousSibling (h n) of
                                          None \<Rightarrow> Null
                                        | Some p \<Rightarrow> idMap_get m (Some p));
                           metadata = \<lparr>active = True, suspend = False, privacy = Snapshot,
                                       position = None, fraud = None, size' = None\<rparr>
                       in Inr (s1\<lparr>values' := values' s1 @
                             [\<lparr>id' = i, parent = parentId, previous = previous', children = [],
                               data = d, selector = None, hash = None, region = None,
                               metadata' = metadata\<rparr>]\<rparr>))))
          else Inr s
      | _ \<Rightarrow> Inr s)"

text \<open>
  The body of the loop of \<open>traverse\<close> once the children are in the queue: the parent,
  the switch on the node type, and the call of \<open>add\<close>.
\<close>

definition visit :: "dom \<Rightarrow> ref \<Rightarrow> snapshot_state \<Rightarrow> thrown + snapshot_state" where
  "visit h node s =
     (let parent' = (case parentElement (h node) of
                       Some p \<Rightarrow> Some p
                     | None \<Rightarrow> parentNode (h node));
          type = nodeType (h node)
      in if type = DOCUMENT_TYPE_NODE then
           add h (Some node) parent'
             (Some \<lparr>tag = Some Constant_DocumentTag,
                    attributes' = Some [(''name'', doctype_name (h node)),
                                        (''publicId'', publicId (h node)),
                                        (''systemId'', systemId (h node))],
                    value' = None\<rparr>) s
         else if type = TEXT_NODE then
           (case idMap s of
              None \<Rightarrow> Inl TypeError
            | Some m \<Rightarrow>
                add h (Some node) parent'
                  (Some \<lparr>tag = (if truthy_id (idMap_get m parent') then Some Constant_TextTag else None),
                         attributes' = None,
                         value' = nodeValue (h node)\<rparr>) s)
         else if type = ELEMENT_NODE then
           add h (Some node) parent'
             (Some \<lparr>tag = (if tagName (h node) \<notin> set [''NOSCRIPT'', ''SCRIPT'', ''STYLE'']
                           then Some (tagName (h node)) else None),
                    attributes' = Some (snapshot_getAttributes h node),
                    value' = None\<rparr>) s
         else
           add h (Some node) parent' (Some \<lparr>tag = None, attributes' = None, value' = None\<rparr>) s)"

text \<open>
  The inner loop: \<open>next\<close> runs along \<open>nextSibling\<close> until it is \<open>null\<close>, pushing each
  node. On a chain that never ends the loop does not return.
\<close>

partial_function (option) push_siblings :: "dom \<Rightarrow> ref list \<Rightarrow> ref option \<Rightarrow> ref list option" where
  "push_siblings h queue next' =
     (case next' of
        None \<Rightarrow> Some queue
      | Some n \<Rightarrow> push_siblings h (queue @ [n]) (nextSibling (h n)))"

text \<open>The outer loop, on the queue; a \<open>throw\<close> in the body ends it.\<close>

partial_function (option) traverse_loop :: "dom \<Rightarrow> ref list \<Rightarrow> snapshot_state
    \<Rightarrow> (thrown + snapshot_state) option" where
  "traverse_loop h queue s =
     (case queue of
        [] \<Rightarrow> Some (Inr s)
      | node # rest \<Rightarrow>
          (case push_siblings h rest (firstChild (h node)) of
             None \<Rightarrow> None
           | Some queue' \<Rightarrow>
               (case visit h node s of
                  Inl e \<Rightarrow> Some (Inl e)
                | Inr s1 \<Rightarrow> traverse_loop h queue' s1)))"

definition traverse :: "dom \<Rightarrow> ref \<Rightarrow> snapshot_state \<Rightarrow> (thrown + snapshot_state) option" where
  "traverse h root s = traverse_loop h [root] s"

text \<open>
  \<open>snapshot\<close>: \<open>values\<close> is emptied and the document traversed. The encoder that is
  called last reads \<open>values\<close>; it belongs to another module.
\<close>

definition snapshot :: "dom \<Rightarrow> ref \<Rightarrow> snapshot_state \<Rightarrow> (thrown + snapshot_state) option" where
  "snapshot h document s = traverse h document (s\<lparr>values' := []\<rparr>)"

subsection \<open>The shape of a document\<close>

text \<open>
  A document of the host is a finite tree. \<open>shaped h t\<close> says that the tree \<open>t\<close> of
  references is what \<open>firstChild\<close> and \<open>nextSibling\<close> spell out in \<open>h\<close> from the root
  of \<open>t\<close>: the children of a node are the chain that starts at its \<open>firstChild\<close> and
  ends where \<open>nextSibling\<close> is \<open>null\<close>.
\<close>

datatype tree = Tree (root: ref) (subtrees: "tree list")

fun chain :: "dom \<Rightarrow> ref option \<Rightarrow> ref list \<Rightarrow> bool" where
  "chain h next' [] = (next' = None)"
| "chain h next' (r # rs) = (next' = Some r \<and> chain h (nextSibling (h r)) rs)"

fun shaped :: "dom \<Rightarrow> tree \<Rightarrow> bool" where
  "shaped h (Tree r ts) = (chain h (firstChild (h r)) (map root ts) \<and> list_all (shaped h) ts)"

fun weight :: "tree \<Rightarrow> nat" where
  "weight (Tree r ts) = Suc (sum_list (map weight ts))"

lemma weight_children:
  "sum_list (map weight (concat (map subtrees ts))) + length ts = sum_list (map weight ts)"
proof (induction ts)
  case Nil
  then show ?case by simp
next
  case (Cons t ts)
  then show ?case by (cases t) simp
qed

text \<open>
  Breadth-first order, said without a queue: the roots of a forest, then the
  breadth-first order of the forest of all their children, level after level.
\<close>

function levels :: "tree list \<Rightarrow> ref list list" where
  "levels [] = []"
| "levels (t # ts) = map root (t # ts) # levels (concat (map subtrees (t # ts)))"
  by pat_completeness auto

termination levels
proof (relation "measure (\<lambda>ts. sum_list (map weight ts))")
  show "wf (measure (\<lambda>ts. sum_list (map weight ts)))"
    by simp
next
  fix t ts
  show "(concat (map subtrees (t # ts)), t # ts) \<in> measure (\<lambda>ts. sum_list (map weight ts))"
    using weight_children [of "t # ts"] by simp
qed

text \<open>The nodes of a tree, each once.\<close>

fun nodes :: "tree \<Rightarrow> ref list" where
  "nodes (Tree r ts) = r # concat (map nodes ts)"

text \<open>The body of the loop run on a list of nodes in turn, up to the first \<open>throw\<close>.\<close>

fun visit_all :: "dom \<Rightarrow> ref list \<Rightarrow> snapshot_state \<Rightarrow> thrown + snapshot_state" where
  "visit_all h [] s = Inr s"
| "visit_all h (n # ns) s =
     (case visit h n s of
        Inl e \<Rightarrow> Inl e
      | Inr s1 \<Rightarrow> visit_all h ns s1)"

section \<open>layout/node.ts\<close>

subsection \<open>The collaborators\<close>

text \<open>
  Modelled from the spec: the enumerations \<open>Source\<close> (\<open>@clarity-types/layout\<close>),
  \<open>Dimension\<close>, \<open>Code\<close> and \<open>Severity\<close> (\<open>@clarity-types/data\<close>) are declared outside the
  sources; these are the members that the spec and the code name.
\<close>

datatype Source = Discover | ChildListAdd | ChildListRemove | Attributes | CharacterData

datatype Dimension = MetaTitle | MetaType | Generator

datatype Code = CssRules

datatype Severity = Warning

text \<open>
  The modules \<open>dom\<close>, \<open>event\<close>, \<open>mutation\<close>, \<open>interaction\<close>, \<open>schema\<close>, \<open>dimension\<close>,
  \<open>internal\<close> and \<open>style\<close> are not among the sources. What the node processor asks of
  them is a parameter (\<open>env\<close>); what it tells them is recorded, call by call, in the
  order of the calls. \<open>Dom_setBase\<close> is the assignment to the \<open>base\<close> attribute of the
  record that \<open>dom.get\<close> returned. The answers are those at the time the processor is
  called: no call it makes is taken to change them before it returns, and no
  collaborator is taken to throw.
\<close>

datatype call =
    Dom_add ref "ref option" NodeInfo Source
  | Dom_update ref "ref option" NodeInfo Source
  | Dom_parse ref
  | Dom_removeIFrame ref ref
  | Dom_setBase "ref option" string
  | CheckDocumentStyles ref nat
  | Mutation_observe ref
  | Mutation_monitor ref
  | Mutation_disconnect ref
  | Interaction_observe ref
  | Event_unbind ref
  | Dimension_log Dimension string
  | Internal_log Code Severity "string option"
  | Schema_ld string

text \<open>
  The globals and the answers of the collaborators: \<open>document\<close>, \<open>location\<close>,
  \<open>document.styleSheets\<close> (the \<open>ownerNode\<close> of each sheet and what reading its
  \<open>cssRules\<close> gives), the \<open>electron\<close> flag, \<open>JSON.parse\<close> (\<open>None\<close> where it throws; the
  value it returns is kept as a string) and the anchor element that resolves an \<open>href\<close>.
  \<open>schema.ld\<close> is called inside the \<open>try\<close>: its call is recorded, and the \<open>catch\<close> is
  there for it as for \<open>JSON.parse\<close>.
\<close>

record env =
  document :: ref
  location :: location
  styleSheets :: "(ref option \<times> (thrown + string list)) list"
  electron :: bool
  dom_has :: "ref \<Rightarrow> bool"
  dom_get :: "ref option \<Rightarrow> bool"
  dom_iframe :: "ref \<Rightarrow> ref option"
  dom_sameorigin :: "ref \<Rightarrow> bool"
  dom_iframeContent :: "ref \<Rightarrow> (ref option \<times> ref option) option"
  event_has :: "ref \<Rightarrow> bool"
  JSON_parse :: "string \<Rightarrow> string option"
  anchor :: "string option \<Rightarrow> location"

subsection \<open>Helpers of the module\<close>

definition IGNORE_ATTRIBUTES :: "string list" where
  "IGNORE_ATTRIBUTES =
     [''title'', ''alt'', ''onload'', ''onfocus'', ''onerror'',
      ''data-drupal-form-submit-last'', ''aria-label'']"

text \<open>
  The operator \<open>in\<close> on an object literal: its own keys, and the names it inherits from
  \<open>Object.prototype\<close>.
\<close>

definition Object_prototype :: "string list" where
  "Object_prototype =
     [''constructor'', ''__proto__'', ''hasOwnProperty'', ''isPrototypeOf'',
      ''propertyIsEnumerable'', ''toLocaleString'', ''toString'', ''valueOf'',
      ''__defineGetter__'', ''__defineSetter__'', ''__lookupGetter__'', ''__lookupSetter__'']"

definition js_in :: "string \<Rightarrow> obj \<Rightarrow> bool" where
  "js_in k output = (k \<in> fst ` set output \<or> k \<in> set Object_prototype)"

definition getAttributes :: "dom \<Rightarrow> ref \<Rightarrow> obj" where
  "getAttributes h element =
     (let output = foldl (\<lambda>output a.
                      if fst a \<notin> set IGNORE_ATTRIBUTES then obj_set output (fst a) (snd a)
                      else output) [] (attributes (h element))
      in if tagName (h element) = Constant_InputTag \<and> \<not> js_in Constant_Value output
            \<and> input_value (h element) \<noteq> []
         then obj_set output Constant_Value (input_value (h element))
         else output)"

definition getCssRules :: "(thrown + string list) option \<Rightarrow> call list \<times> (thrown + string)" where
  "getCssRules sheet' =
     (case sheet' of
        None \<Rightarrow> ([], Inr (concat []))
      | Some (Inr cssRules) \<Rightarrow> ([], Inr (concat cssRules))
      | Some (Inl e) \<Rightarrow>
          (let log = [Internal_log CssRules Warning (case e of Falsy \<Rightarrow> None | Thrown n \<Rightarrow> n)]
           in case e of
                Falsy \<Rightarrow> (log, Inr Constant_Empty)
              | Thrown n \<Rightarrow>
                  if n \<noteq> Some ''SecurityError'' then (log, Inl e)
                  else (log, Inr Constant_Empty)))"

text \<open>
  \<open>String.prototype.trim\<close>: white space and line terminators go from both ends. Among
  the code units below 256 these are tab, line feed, vertical tab, form feed, carriage
  return, space and the no-break space.
\<close>

definition is_space :: "char \<Rightarrow> bool" where
  "is_space c = (of_char c \<in> {9, 10, 11, 12, 13, 32, 160 :: nat})"

definition trim :: "string \<Rightarrow> string" where
  "trim s = rev (dropWhile is_space (rev (dropWhile is_space s)))"

definition getStyleValue :: "dom \<Rightarrow> ref \<Rightarrow> call list \<times> (thrown + string)" where
  "getStyleValue h style =
     (let value = (case textContent (h style) of
                     None \<Rightarrow> Constant_Empty
                   | Some t \<Rightarrow> if t \<noteq> [] then trim t else Constant_Empty);
          dataset' = (case dataset (h style) of None \<Rightarrow> 0 | Some keys \<Rightarrow> length keys)
      in if length value = 0 \<or> dataset' > 0 \<or> length (element_id (h style)) > 0
         then getCssRules (sheet (h style))
         else ([], Inr value))"

definition observe :: "env \<Rightarrow> ref \<Rightarrow> call list" where
  "observe E root' =
     (if dom_has E root' \<or> event_has E root' then []
      else [Mutation_observe root', Interaction_observe root'])"

definition removeObserver :: "env \<Rightarrow> ref \<Rightarrow> call list" where
  "removeObserver E root' =
     (let content = (case dom_iframeContent E root' of None \<Rightarrow> (None, None) | Some c \<Rightarrow> c);
          doc = fst content;
          win = snd content
      in [Event_unbind root']
         @ (case win of None \<Rightarrow> [] | Some w \<Rightarrow> [Event_unbind w])
         @ (case doc of
              None \<Rightarrow> []
            | Some d \<Rightarrow> [Event_unbind d, Mutation_disconnect d, Dom_removeIFrame root' d]))"

subsection \<open>The node processor\<close>

text \<open>\<open>dom[call]\<close>: \<open>dom.add\<close> when \<open>add\<close> holds, \<open>dom.update\<close> otherwise.\<close>

definition dom_call :: "bool \<Rightarrow> ref \<Rightarrow> ref option \<Rightarrow> NodeInfo \<Rightarrow> Source \<Rightarrow> call" where
  "dom_call add' node parent' data' source =
     (if add' then Dom_add node parent' data' source else Dom_update node parent' data' source)"

definition base_of :: "location \<Rightarrow> string" where
  "base_of l = protocol l @ ''//'' @ host l @ pathname l"

text \<open>
  The case \<open>ELEMENT_NODE\<close> of the switch on the node type, with the inner switch on the
  tag. The result is the calls made, and the \<open>child\<close> to return or what was thrown.
\<close>

definition element_case :: "env \<Rightarrow> dom \<Rightarrow> ref \<Rightarrow> bool \<Rightarrow> bool \<Rightarrow> Source
    \<Rightarrow> call list \<times> (thrown + ref option)" where
  "element_case E h node add' insideFrame source =
     (let element = h node;
          attributes'' = getAttributes h node;
          parent' = (case parentElement element of
                       Some p \<Rightarrow> Some p
                     | None \<Rightarrow> parentNode element);
          tag' = (if namespaceURI element = Some Constant_SvgNamespace
                  then Constant_SvgPrefix @ tagName element else tagName element)
      in if tag' = ''HTML'' then
           (let parent'' = (case parent' of
                              Some p \<Rightarrow> if insideFrame then dom_iframe E p else parent'
                            | None \<Rightarrow> parent');
                htmlPrefix = (if insideFrame then Constant_IFramePrefix else Constant_Empty)
            in ([dom_call add' node parent''
                   \<lparr>tag = Some (htmlPrefix @ tag'), attributes' = Some attributes'', value' = None\<rparr>
                   source], Inr None))
         else if tag' = ''SCRIPT'' then
           (if js_in Constant_Type attributes''
               \<and> map_of attributes'' Constant_Type = Some Constant_JsonLD
            then (case JSON_parse E (filter (\<lambda>c. c \<noteq> CHR 0x0D \<and> c \<noteq> CHR 0x0A)
                                       (script_text element)) of
                    None \<Rightarrow> ([], Inr None)
                  | Some j \<Rightarrow> ([Schema_ld j], Inr None))
            else ([], Inr None))
         else if tag' = ''NOSCRIPT'' then
           ([dom_call add' node parent'
               \<lparr>tag = Some tag', attributes' = Some [], value' = Some []\<rparr> source], Inr None)
         else if tag' = ''META'' then
           (let key = (if js_in Constant_Property attributes'' then Some Constant_Property
                       else if js_in Constant_Name attributes'' then Some Constant_Name
                       else None)
            in case key of
                 None \<Rightarrow> ([], Inr None)
               | Some k \<Rightarrow>
                   if k \<noteq> [] \<and> js_in Constant_Content attributes'' then
                     (case map_of attributes'' Constant_Content of
                        None \<Rightarrow> ([], Inr None)
                      | Some content \<Rightarrow>
                          if map_of attributes'' k = Some Constant_ogTitle
                          then ([Dimension_log MetaTitle content], Inr None)
                          else if map_of attributes'' k = Some Constant_ogType
                          then ([Dimension_log MetaType content], Inr None)
                          else if map_of attributes'' k = Some Constant_Generator
                          then ([Dimension_log Generator content], Inr None)
                          else ([], Inr None))
                   else ([], Inr None))
         else if tag' = ''HEAD'' then
           (let l = (if insideFrame then
                       (case ownerDocument element of
                          None \<Rightarrow> location E
                        | Some d \<Rightarrow> (case doc_location (h d) of
                                       None \<Rightarrow> location E
                                     | Some dl \<Rightarrow> dl))
                     else location E)
            in ([dom_call add' node parent'
                   \<lparr>tag = Some tag',
                    attributes' = Some (obj_set attributes'' Constant_Base (base_of l)),
                    value' = None\<rparr> source], Inr None))
         else if tag' = ''BASE'' then
           (if dom_get E (parentElement element)
            then ([Dom_setBase (parentElement element)
                     (base_of (anchor E (map_of attributes'' ''href'')))], Inr None)
            else ([], Inr None))
         else if tag' = ''STYLE'' then
           (case getStyleValue h node of
              (calls, Inl e) \<Rightarrow> (calls, Inl e)
            | (calls, Inr v) \<Rightarrow>
                (calls @ [dom_call add' node parent'
                            \<lparr>tag = Some tag', attributes' = Some attributes'', value' = Some v\<rparr>
                            source], Inr None))
         else if tag' = ''IFRAME'' then
           (let sameorigin = dom_sameorigin E node;
                monitored = (if sameorigin then [Mutation_monitor node] else []);
                frameAttributes = (if sameorigin
                                   then obj_set attributes'' Constant_SameOrigin ''true''
                                   else attributes'');
                child = (if sameorigin then
                           (case (contentDocument element, contentWindow element) of
                              (Some d, Some w) \<Rightarrow>
                                if readyState (h d) \<noteq> ''loading'' then Some d else None
                            | _ \<Rightarrow> None)
                         else None);
                removed = (if source = ChildListRemove then removeObserver E node else [])
            in (monitored @ removed @
                [dom_call add' node parent'
                   \<lparr>tag = Some tag', attributes' = Some frameAttributes, value' = None\<rparr> source],
                Inr child))
         else if tag' = ''LINK'' then
           (if electron E \<and> map_of attributes'' ''rel'' = Some Constant_StyleSheet then
              (case find (\<lambda>currentStyleSheet. fst currentStyleSheet = Some node) (styleSheets E) of
                 None \<Rightarrow> ([], Inr None)
               | Some currentStyleSheet \<Rightarrow>
                   (case getCssRules (Some (snd currentStyleSheet)) of
                      (calls, Inl e) \<Rightarrow> (calls, Inl e)
                    | (calls, Inr v) \<Rightarrow>
                        (calls @ [dom_call add' node parent'
                                    \<lparr>tag = Some ''STYLE'', attributes' = Some attributes'',
                                     value' = Some v\<rparr> source], Inr None)))
            else
              ([dom_call add' node parent'
                  \<lparr>tag = Some tag', attributes' = Some attributes'', value' = None\<rparr> source],
               Inr None))
         else if tag' = ''VIDEO'' \<or> tag' = ''AUDIO'' \<or> tag' = ''SOURCE'' then
           (let mediaAttributes =
                  (if js_in Constant_Src attributes''
                      \<and> (case map_of attributes'' Constant_Src of
                            None \<Rightarrow> False
                          | Some v \<Rightarrow> take 5 v = ''data:'')
                   then obj_set attributes'' Constant_Src []
                   else attributes'')
            in ([dom_call add' node parent'
                   \<lparr>tag = Some tag', attributes' = Some mediaAttributes, value' = None\<rparr> source],
                Inr None))
         else
           ([dom_call add' node parent'
               \<lparr>tag = Some tag', attributes' = Some attributes'', value' = None\<rparr> source],
            Inr (shadowRoot element)))"

text \<open>
  The switch on the node type, for the node that is processed: \<open>add\<close>, \<open>call\<close>,
  \<open>parent\<close> and \<open>insideFrame\<close> are computed from it first.
\<close>

definition node_switch :: "env \<Rightarrow> dom \<Rightarrow> ref \<Rightarrow> Source \<Rightarrow> nat
    \<Rightarrow> call list \<times> (thrown + ref option)" where
  "node_switch E h node source timestamp =
     (let add' = (dom_has E node = False);
          parent' = parentElement (h node);
          insideFrame = (ownerDocument (h node) \<noteq> Some (document E))
      in if nodeType (h node) = DOCUMENT_TYPE_NODE then
           (let parent'' = (case parentNode (h node) of
                              Some p \<Rightarrow> if insideFrame then dom_iframe E p else parent'
                            | None \<Rightarrow> parent');
                docTypePrefix = (if insideFrame then Constant_IFramePrefix
                                 else Constant_Empty);
                docName = (if doctype_name (h node) \<noteq> [] then doctype_name (h node)
                           else Constant_HTML);
                docAttributes = [(''name'', docName),
                                 (''publicId'', publicId (h node)),
                                 (''systemId'', systemId (h node))]
            in ([dom_call add' node parent''
                   \<lparr>tag = Some (docTypePrefix @ Constant_DocumentTag),
                    attributes' = Some docAttributes, value' = None\<rparr> source],
                Inr None))
         else if nodeType (h node) = DOCUMENT_NODE then
           ((if node = document E then [Dom_parse (document E)] else [])
            @ [CheckDocumentStyles node timestamp] @ observe E node, Inr None)
         else if nodeType (h node) = DOCUMENT_FRAGMENT_NODE then
           (case shadow_host (h node) of
              None \<Rightarrow> ([], Inr None)
            | Some host' \<Rightarrow>
                ([Dom_parse node]
                 @ (if nativeConstructor (h node) then
                      observe E node @
                      [dom_call add' node (Some host')
                         \<lparr>tag = Some Constant_ShadowDomTag,
                          attributes' = Some [(''style'', Constant_Empty)],
                          value' = None\<rparr> source]
                    else
                      [dom_call add' node (Some host')
                         \<lparr>tag = Some Constant_PolyfillShadowDomTag,
                          attributes' = Some [], value' = None\<rparr> source])
                 @ [CheckDocumentStyles node timestamp], Inr None))
         else if nodeType (h node) = TEXT_NODE then
           (let parent'' = (case parent' of
                              Some p \<Rightarrow> Some p
                            | None \<Rightarrow> parentNode (h node))
            in if \<not> add' \<or> (case parent'' of
                               None \<Rightarrow> False
                             | Some p \<Rightarrow> dom_has E p \<and> tagName (h p) \<noteq> ''STYLE''
                                          \<and> tagName (h p) \<noteq> ''NOSCRIPT'')
               then ([dom_call add' node parent''
                        \<lparr>tag = Some Constant_TextTag, attributes' = None,
                         value' = nodeValue (h node)\<rparr> source], Inr None)
               else ([], Inr None))
         else if nodeType (h node) = ELEMENT_NODE then
           element_case E h node add' insideFrame source
         else ([], Inr None))"

text \<open>
  The default export of the module: one node, the source of the notification and its
  time. A text node under a \<open>STYLE\<close> element stands for that element unless the node is
  being discovered; should the element have no \<open>parentNode\<close> to give, reading a
  property of \<open>null\<close> throws.
\<close>

definition processNode :: "env \<Rightarrow> dom \<Rightarrow> ref \<Rightarrow> Source \<Rightarrow> nat
    \<Rightarrow> call list \<times> (thrown + ref option)" where
  "processNode E h inputNode source timestamp =
     (if source = ChildListRemove \<and> dom_has E inputNode = False then ([], Inr None)
      else
        (let node' = (if source \<noteq> Discover \<and> nodeType (h inputNode) = TEXT_NODE
                         \<and> (case parentElement (h inputNode) of
                               None \<Rightarrow> False
                             | Some p \<Rightarrow> tagName (h p) = ''STYLE'')
                      then parentNode (h inputNode) else Some inputNode)
         in case node' of
              None \<Rightarrow> ([], Inl TypeError)
            | Some node \<Rightarrow> node_switch E h node source timestamp))"

subsection \<open>The tracking maps of the dom module\<close>





text \<open>
  Modelled from the spec: the identity registry of \<open>layout/dom.ts\<close> (4.1):
  "\<open>idFor(node) -> id\<close>, allocating on first use", "monotonic integer allocation
  starting at 1".
\<close>

record registry =
  next_id :: nat
  ids :: "ref \<rightharpoonup> nat"






section \<open>Reading results\<close>

text \<open>
  The record that \<open>add\<close> pushes for an identifier, a parent, a previous sibling and the
  data: the other fields are the same for every node.
\<close>

definition pushed :: "nat \<Rightarrow> idref \<Rightarrow> idref \<Rightarrow> NodeInfo \<Rightarrow> NodeValue" where
  "pushed i parentId previous' d =
     \<lparr>id' = Some i, parent = parentId, previous = previous', children = [], data = d,
      selector = None, hash = None, region = None,
      metadata' = \<lparr>active = True, suspend = False, privacy = Snapshot,
                    position = None, fraud = None, size' = None\<rparr>\<rparr>"

text \<open>What the registry of a state holds for a node.\<close>

definition id_of :: "snapshot_state \<Rightarrow> ref \<Rightarrow> idref" where
  "id_of s n = (case idMap s of None \<Rightarrow> Undefined | Some m \<Rightarrow> idMap_get m (Some n))"

text \<open>
  A state as far as it can be compared: the counter, the registry on the given nodes,
  and the records.
\<close>

definition summary :: "ref list \<Rightarrow> snapshot_state \<Rightarrow> nat \<times> idref list \<times> NodeValue list" where
  "summary ns s = (index s, map (id_of s) ns, values' s)"

text \<open>Two runs of a step that may throw or not return, the second on the state of the first.\<close>

definition and_then :: "(thrown + snapshot_state) option
    \<Rightarrow> (snapshot_state \<Rightarrow> (thrown + snapshot_state) option) \<Rightarrow> (thrown + snapshot_state) option" where
  "and_then r f = (case r of None \<Rightarrow> None | Some (Inl e) \<Rightarrow> Some (Inl e) | Some (Inr s) \<Rightarrow> f s)"

definition outcome :: "ref list \<Rightarrow> (thrown + snapshot_state) option
    \<Rightarrow> (thrown + nat \<times> idref list \<times> NodeValue list) option" where
  "outcome ns r = map_option (map_sum id (summary ns)) r"

section \<open>Example documents\<close>

definition blank :: dom_node where
  "blank = \<lparr>nodeType = 0, parentElement = None, parentNode = None, firstChild = None,
     nextSibling = None, previousSibling = None, ownerDocument = None, nodeValue = None,
     tagName = [], namespaceURI = None, attributes = [], doctype_name = [], publicId = [],
     systemId = [], documentElement = None, readyState = [], doc_location = None,
     shadow_host = None, nativeConstructor = False, shadowRoot = None, script_text = [],
     contentDocument = None, contentWindow = None, textContent = None, dataset = None,
     element_id = [], sheet = None, input_value = []\<rparr>"

definition element :: "string \<Rightarrow> dom_node" where
  "element t = blank\<lparr>nodeType := 1, tagName := t,
     namespaceURI := Some ''http://www.w3.org/1999/xhtml'', ownerDocument := Some 10,
     dataset := Some []\<rparr>"

text \<open>A document (10) whose only child is a \<open>DIV\<close> (12) with the text \<open>hello\<close> (13).\<close>

definition hello_doc :: dom where
  "hello_doc =
     (\<lambda>r. blank)
     (10 := blank\<lparr>nodeType := 9, firstChild := Some 12, documentElement := Some 12\<rparr>,
      12 := (element ''DIV'')\<lparr>parentNode := Some 10, firstChild := Some 13\<rparr>,
      13 := blank\<lparr>nodeType := 3, parentElement := Some 12, parentNode := Some 12,
                  ownerDocument := Some 10, nodeValue := Some ''hello''\<rparr>)"

text \<open>
  A document (10) with the root \<open>HTML\<close> (11), in it a \<open>DIV\<close> (12) with the text
  \<open>hello\<close> (13).
\<close>

definition page :: dom where
  "page =
     (\<lambda>r. blank)
     (10 := blank\<lparr>nodeType := 9, firstChild := Some 11, documentElement := Some 11\<rparr>,
      11 := (element ''HTML'')\<lparr>parentNode := Some 10, firstChild := Some 12\<rparr>,
      12 := (element ''DIV'')\<lparr>parentElement := Some 11, parentNode := Some 11,
                               firstChild := Some 13\<rparr>,
      13 := blank\<lparr>nodeType := 3, parentElement := Some 12, parentNode := Some 12,
                  ownerDocument := Some 10, nodeValue := Some ''hello''\<rparr>)"

text \<open>
  A document (30) with the root \<open>HTML\<close> (31) and in it \<open>HEAD\<close> (32) with a \<open>META\<close> (34)
  and, next to it, \<open>BODY\<close> (33) with a \<open>DIV\<close> (35).
\<close>

definition family :: dom where
  "family =
     (\<lambda>r. blank)
     (30 := blank\<lparr>nodeType := 9, firstChild := Some 31, documentElement := Some 31\<rparr>,
      31 := (element ''HTML'')\<lparr>parentNode := Some 30, firstChild := Some 32\<rparr>,
      32 := (element ''HEAD'')\<lparr>parentElement := Some 31, parentNode := Some 31,
                                firstChild := Some 34, nextSibling := Some 33\<rparr>,
      33 := (element ''BODY'')\<lparr>parentElement := Some 31, parentNode := Some 31,
                                firstChild := Some 35, previousSibling := Some 32\<rparr>,
      34 := (element ''META'')\<lparr>parentElement := Some 32, parentNode := Some 32\<rparr>,
      35 := (element ''DIV'')\<lparr>parentElement := Some 33, parentNode := Some 33\<rparr>)"

text \<open>A document in which only the node 20 is of interest.\<close>

definition alone :: "dom_node \<Rightarrow> dom" where
  "alone n = (\<lambda>r. blank)(20 := n)"

text \<open>Collaborators that know no node yet, in a page at \<open>https://example.org/\<close>.\<close>

definition quiet :: env where
  "quiet = \<lparr>document = 10,
     location = \<lparr>protocol = ''https:'', host = ''example.org'', pathname = ''/''\<rparr>,
     styleSheets = [], electron = False, dom_has = (\<lambda>n. False), dom_get = (\<lambda>n. False),
     dom_iframe = (\<lambda>n. None), dom_sameorigin = (\<lambda>n. False),
     dom_iframeContent = (\<lambda>n. None), event_has = (\<lambda>n. False),
     JSON_parse = (\<lambda>t. None),
     anchor = (\<lambda>href. \<lparr>protocol = ''https:'', host = ''example.org'', pathname = ''/''\<rparr>)\<rparr>"

section \<open>Properties\<close>

subsection \<open>The identity registry\<close>

lemma getId_fresh:
  "idMap s = Some m \<Longrightarrow> m n = None \<Longrightarrow>
   getId (Some n) s = Inr (Some (index s), s\<lparr>idMap := Some (m(n \<mapsto> index s)), index := index s + 1\<rparr>)"
  by (simp add: getId_def)

lemma getId_known:
  "idMap s = Some m \<Longrightarrow> m n = Some i \<Longrightarrow> getId (Some n) s = Inr (Some i, s)"
  by (simp add: getId_def)

lemma getIds_from:
  assumes "idMap s = Some m" and "dom m = set pre"
    and "\<forall>x\<in>set pre. m x = Some (k0 + card (set (takeWhile (\<lambda>y. y \<noteq> x) pre)))"
    and "index s = k0 + card (set pre)"
  shows "\<exists>s'. getIds ns s =
            Inr (map (\<lambda>n. Some (k0 + card (set (takeWhile (\<lambda>y. y \<noteq> n) (pre @ ns))))) ns, s')
          \<and> index s' = k0 + card (set (pre @ ns)) \<and> idMap s' \<noteq> None"
  using assms
proof (induction ns arbitrary: s m pre)
  case Nil
  then show ?case by simp
next
  case (Cons n ns)
  show ?case
  proof (cases "n \<in> set pre")
    case True
    then have mn: "m n = Some (k0 + card (set (takeWhile (\<lambda>y. y \<noteq> n) pre)))"
      using Cons.prems(3) by blast
    have step: "getId (Some n) s = Inr (Some (k0 + card (set (takeWhile (\<lambda>y. y \<noteq> n) pre))), s)"
      using getId_known [OF Cons.prems(1) mn] .
    have tw: "\<And>x. x \<in> set pre \<Longrightarrow> takeWhile (\<lambda>y. y \<noteq> x) (pre @ zs) = takeWhile (\<lambda>y. y \<noteq> x) pre" for zs
      by (rule takeWhile_append1) auto
    have p2: "dom m = set (pre @ [n])" using Cons.prems(2) True by auto
    have p3: "\<forall>x\<in>set (pre @ [n]). m x = Some (k0 + card (set (takeWhile (\<lambda>y. y \<noteq> x) (pre @ [n]))))"
      using Cons.prems(3) True tw by auto
    have p4: "index s = k0 + card (set (pre @ [n]))"
      using Cons.prems(4) True by (simp add: insert_absorb)
    from Cons.IH [OF Cons.prems(1) p2 p3 p4]
    obtain s' where r: "getIds ns s =
            Inr (map (\<lambda>x. Some (k0 + card (set (takeWhile (\<lambda>y. y \<noteq> x) ((pre @ [n]) @ ns))))) ns, s')"
        and i: "index s' = k0 + card (set ((pre @ [n]) @ ns))" and nn: "idMap s' \<noteq> None"
      by blast
    show ?thesis
      using step r i nn tw [OF True] by simp
  next
    case False
    then have mn: "m n = None" using Cons.prems(2) by auto
    let ?s1 = "s\<lparr>idMap := Some (m(n \<mapsto> index s)), index := index s + 1\<rparr>"
    have step: "getId (Some n) s = Inr (Some (index s), ?s1)"
      using getId_fresh [OF Cons.prems(1) mn] .
    have tw2: "takeWhile (\<lambda>y. y \<noteq> n) (pre @ zs) = pre @ takeWhile (\<lambda>y. y \<noteq> n) zs" for zs
      by (rule takeWhile_append2) (use False in auto)
    have tw: "\<And>x. x \<in> set pre \<Longrightarrow> takeWhile (\<lambda>y. y \<noteq> x) (pre @ zs) = takeWhile (\<lambda>y. y \<noteq> x) pre" for zs
      by (rule takeWhile_append1) auto
    have p1: "idMap ?s1 = Some (m(n \<mapsto> index s))" by simp
    have p2: "dom (m(n \<mapsto> index s)) = set (pre @ [n])" using Cons.prems(2) by auto
    have p3: "\<forall>x\<in>set (pre @ [n]). (m(n \<mapsto> index s)) x = Some (k0 + card (set (takeWhile (\<lambda>y. y \<noteq> x) (pre @ [n]))))"
      using Cons.prems(3,4) False tw tw2 [of "[n]"] by auto
    have p4: "index ?s1 = k0 + card (set (pre @ [n]))"
      using Cons.prems(4) False by simp
    from Cons.IH [OF p1 p2 p3 p4]
    obtain s' where r: "getIds ns ?s1 =
            Inr (map (\<lambda>x. Some (k0 + card (set (takeWhile (\<lambda>y. y \<noteq> x) ((pre @ [n]) @ ns))))) ns, s')"
        and i: "index s' = k0 + card (set ((pre @ [n]) @ ns))" and nn: "idMap s' \<noteq> None"
      by blast
    show ?thesis
      using step r i nn tw2 [of "n # ns"] Cons.prems(4) by simp
  qed
qed

lemma takeWhile_first:
  "a \<notin> set ys \<Longrightarrow> takeWhile (\<lambda>y. y \<noteq> a) (ys @ a # zs) = ys"
  by (induction ys) auto

lemma first_seen_less:
  assumes "a \<notin> set ys" and "b \<in> set ys"
  shows "card (set (takeWhile (\<lambda>y. y \<noteq> b) (ys @ a # zs))) < card (set ys)"
proof -
  from assms(2) obtain us vs where ys: "ys = us @ b # vs" and nb: "b \<notin> set us"
    by (auto dest: split_list_first)
  have "takeWhile (\<lambda>y. y \<noteq> b) (ys @ a # zs) = us"
    using takeWhile_first [OF nb, of "vs @ a # zs"] ys by simp
  moreover have "set us \<subset> set ys" using ys nb by auto
  ultimately show ?thesis by (simp add: psubset_card_mono)
qed

lemma first_seen_greater:
  assumes "a \<notin> set ys" and "b \<notin> set ys" and "a \<noteq> b"
  shows "card (set ys) < card (set (takeWhile (\<lambda>y. y \<noteq> b) (ys @ a # zs)))"
proof -
  have "takeWhile (\<lambda>y. y \<noteq> b) (ys @ a # zs) = ys @ a # takeWhile (\<lambda>y. y \<noteq> b) zs"
    using assms(2,3) by (induction ys) auto
  moreover have "set ys \<subset> set (ys @ a # takeWhile (\<lambda>y. y \<noteq> b) zs)"
    using assms(1) by auto
  ultimately show ?thesis by (simp add: psubset_card_mono del: set_append)
qed

lemma takeWhile_first_inj:
  assumes "a \<in> set ns"
    and "card (set (takeWhile (\<lambda>y. y \<noteq> a) ns)) = card (set (takeWhile (\<lambda>y. y \<noteq> b) ns))"
  shows "a = b"
proof (rule ccontr)
  assume ne: "a \<noteq> b"
  from assms(1) obtain ys zs where ns: "ns = ys @ a # zs" and na: "a \<notin> set ys"
    by (auto dest: split_list_first)
  have ta: "takeWhile (\<lambda>y. y \<noteq> a) ns = ys"
    using takeWhile_first [OF na] ns by simp
  show False
  proof (cases "b \<in> set ys")
    case True
    from first_seen_less [OF na True, of zs] assms(2) ta ns show False by simp
  next
    case False
    from first_seen_greater [OF na False ne, of zs] assms(2) ta ns show False by simp
  qed
qed

text \<open>
  C1. A session starts with \<open>reset\<close>. For every sequence of calls to \<open>getId\<close> in a
  session, every call succeeds; the identifier returned for a node is the counter at the
  start of the session plus the number of distinct nodes seen before that node's first
  call (so first calls get the next integers, in steps of one, and later calls for the
  same node repeat its identifier); two calls return the same identifier only for the
  same node; and the counter of a freshly loaded module is 1.
\<close>

theorem getId_idempotent_monotonic:
  "\<exists>ids s'. getIds ns (reset s) = Inr (ids, s')
     \<and> ids = map (\<lambda>n. Some (index s + card (set (takeWhile (\<lambda>x. x \<noteq> n) ns)))) ns
     \<and> (\<forall>j<length ns. \<forall>k<length ns. (ids ! j = ids ! k) = (ns ! j = ns ! k))
     \<and> index s' = index s + card (set ns)
     \<and> index initial = 1"
proof -
  have "\<exists>s'. getIds ns (reset s) =
            Inr (map (\<lambda>n. Some (index s + card (set (takeWhile (\<lambda>y. y \<noteq> n) ([] @ ns))))) ns, s')
          \<and> index s' = index s + card (set ([] @ ns)) \<and> idMap s' \<noteq> None"
    by (rule getIds_from [where m = Map.empty]) (simp_all add: reset_def)
  then obtain s' where r: "getIds ns (reset s) =
            Inr (map (\<lambda>n. Some (index s + card (set (takeWhile (\<lambda>y. y \<noteq> n) ns)))) ns, s')"
     and i: "index s' = index s + card (set ns)"
    by auto
  let ?ids = "map (\<lambda>n. Some (index s + card (set (takeWhile (\<lambda>y. y \<noteq> n) ns)))) ns"
  have inj: "(?ids ! j = ?ids ! k) = (ns ! j = ns ! k)" if "j < length ns" "k < length ns" for j k
    using that takeWhile_first_inj [of "ns ! j" ns "ns ! k"] by auto
  show ?thesis
    using r i inj by (simp add: initial_def)
qed

theorem getId_idempotent_monotonic_witness:
  "\<exists>s'. getIds [7, 4, 7, 9, 4] (reset initial) = Inr ([Some 1, Some 2, Some 1, Some 3, Some 2], s')
     \<and> index s' = 4"
proof -
  from getId_idempotent_monotonic [of "[7, 4, 7, 9, 4]" initial]
  obtain ids s' where r: "getIds [7, 4, 7, 9, 4] (reset initial) = Inr (ids, s')"
    and i: "index s' = index initial + card (set [7, 4, 7, 9, 4::nat])"
    by blast
  have k: "card (set [7, 4, 7, 9, 4::nat]) = 3"
    by (simp add: card_insert_if)
  have c: "\<exists>s'. getIds [7, 4, 7, 9, 4] (reset initial) =
     Inr ([Some 1, Some 2, Some 1, Some 3, Some 2], s')"
    by (simp add: getId_def reset_def initial_def)
  from r c have "ids = [Some 1, Some 2, Some 1, Some 3, Some 2]"
    by auto
  moreover from i k have "index s' = 4"
    by (simp add: initial_def)
  ultimately show ?thesis using r by blast
qed

subsection \<open>The snapshot traversal\<close>

lemma visit_all_append:
  "visit_all h (xs @ ys) s = (case visit_all h xs s of Inl e \<Rightarrow> Inl e | Inr s1 \<Rightarrow> visit_all h ys s1)"
  by (induction xs arbitrary: s) (auto split: sum.splits)

lemma push_siblings_chain:
  "chain h next' rs \<Longrightarrow> push_siblings h queue next' = Some (queue @ rs)"
proof (induction rs arbitrary: queue next')
  case Nil
  then show ?case by (subst push_siblings.simps) simp
next
  case (Cons r rs)
  then show ?case by (subst push_siblings.simps) simp
qed

lemma shaped_children:
  "list_all (shaped h) ts \<Longrightarrow> list_all (shaped h) (concat (map subtrees ts))"
proof (induction ts)
  case Nil then show ?case by simp
next
  case (Cons t ts)
  then show ?case by (cases t) simp
qed

lemma traverse_loop_level:
  "list_all (shaped h) us \<Longrightarrow>
   traverse_loop h (map root us @ queue) s =
     (case visit_all h (map root us) s of
        Inl e \<Rightarrow> Some (Inl e)
      | Inr s1 \<Rightarrow> traverse_loop h (queue @ map root (concat (map subtrees us))) s1)"
proof (induction us arbitrary: queue s)
  case Nil
  then show ?case by simp
next
  case (Cons u us)
  obtain r ts where u: "u = Tree r ts" by (cases u)
  from Cons.prems u have c: "chain h (firstChild (h r)) (map root ts)" and rest: "list_all (shaped h) us"
    by simp_all
  have p: "push_siblings h (map root us @ queue) (firstChild (h r)) = Some ((map root us @ queue) @ map root ts)"
    by (rule push_siblings_chain [OF c])
  show ?case
  proof (cases "visit h r s")
    case (Inl e)
    then show ?thesis using p u by (subst traverse_loop.simps) simp
  next
    case (Inr s1)
    have "traverse_loop h (map root (u # us) @ queue) s = traverse_loop h (map root us @ (queue @ map root ts)) s1"
      using p u Inr by (subst traverse_loop.simps) simp
    also have "\<dots> = (case visit_all h (map root us) s1 of
        Inl e \<Rightarrow> Some (Inl e)
      | Inr s2 \<Rightarrow> traverse_loop h ((queue @ map root ts) @ map root (concat (map subtrees us))) s2)"
      by (rule Cons.IH [OF rest])
    finally show ?thesis using u Inr by (simp cong: sum.case_cong)
  qed
qed

lemma traverse_loop_levels:
  "list_all (shaped h) ts \<Longrightarrow>
   traverse_loop h (map root ts) s = Some (visit_all h (concat (levels ts)) s)"
proof (induction ts arbitrary: s rule: levels.induct)
  case 1
  show ?case by (subst traverse_loop.simps) simp
next
  case (2 t ts)
  let ?F = "t # ts"
  have sh: "list_all (shaped h) (concat (map subtrees ?F))"
    by (rule shaped_children [OF "2.prems"])
  have "traverse_loop h (map root ?F) s =
     (case visit_all h (map root ?F) s of
        Inl e \<Rightarrow> Some (Inl e)
      | Inr s1 \<Rightarrow> traverse_loop h (map root (concat (map subtrees ?F))) s1)"
    using traverse_loop_level [OF "2.prems", of "[]" s] by (simp cong: sum.case_cong)
  also have "\<dots> = (case visit_all h (map root ?F) s of
        Inl e \<Rightarrow> Some (Inl e)
      | Inr s1 \<Rightarrow> Some (visit_all h (concat (levels (concat (map subtrees ?F)))) s1))"
    using "2.IH" [OF sh] by (simp split: sum.splits)
  also have "\<dots> = Some (visit_all h (map root ?F @ concat (levels (concat (map subtrees ?F)))) s)"
    unfolding visit_all_append by (cases "visit_all h (map root ?F) s") simp_all
  finally show ?case by simp
qed



lemma nodes_children:
  "mset (concat (map nodes ts)) = mset (map root ts) + mset (concat (map nodes (concat (map subtrees ts))))"
proof (induction ts)
  case Nil
  then show ?case by simp
next
  case (Cons t ts)
  then show ?case by (cases t) simp
qed

lemma levels_mset: "mset (concat (levels ts)) = mset (concat (map nodes ts))"
proof (induction ts rule: levels.induct)
  case 1
  show ?case by simp
next
  case (2 t ts)
  show ?case
    using "2.IH" nodes_children [of "t # ts"] by simp
qed

lemma getId_grows:
  "getId node s = Inr (i, s1) \<Longrightarrow> idMap s = Some m \<Longrightarrow> \<exists>m1. idMap s1 = Some m1 \<and> m \<subseteq>\<^sub>m m1"
  by (auto simp: getId_def map_le_def split: option.splits)

lemma add_grows:
  "add h node p d s = Inr s1 \<Longrightarrow> idMap s = Some m \<Longrightarrow> \<exists>m1. idMap s1 = Some m1 \<and> m \<subseteq>\<^sub>m m1"
proof -
  assume a: "add h node p d s = Inr s1" and m: "idMap s = Some m"
  from a have "s1 = s \<or> (\<exists>i s0 r. getId node s = Inr (i, s0) \<and> s1 = s0\<lparr>values' := values' s0 @ [r]\<rparr>)"
    by (auto simp: add_def Let_def split: option.splits if_splits sum.splits)
  then show ?thesis
  proof
    assume "s1 = s"
    with m show ?thesis by auto
  next
    assume "\<exists>i s0 r. getId node s = Inr (i, s0) \<and> s1 = s0\<lparr>values' := values' s0 @ [r]\<rparr>"
    then obtain i s0 r where g: "getId node s = Inr (i, s0)" and e: "s1 = s0\<lparr>values' := values' s0 @ [r]\<rparr>"
      by blast
    from getId_grows [OF g m] e show ?thesis by auto
  qed
qed

lemma visit_grows:
  "visit h n s = Inr s1 \<Longrightarrow> idMap s = Some m \<Longrightarrow> \<exists>m1. idMap s1 = Some m1 \<and> m \<subseteq>\<^sub>m m1"
proof -
  assume v: "visit h n s = Inr s1" and m: "idMap s = Some m"
  from v obtain p d where "add h (Some n) p d s = Inr s1"
    by (auto simp: visit_def Let_def split: option.splits if_splits)
  from add_grows [OF this m] show ?thesis .
qed

lemma visit_all_grows:
  "visit_all h ns s = Inr s1 \<Longrightarrow> idMap s = Some m \<Longrightarrow> \<exists>m1. idMap s1 = Some m1 \<and> m \<subseteq>\<^sub>m m1"
proof (induction ns arbitrary: s m)
  case Nil
  then show ?case by auto
next
  case (Cons n ns)
  from Cons.prems(1) obtain s0 where v: "visit h n s = Inr s0" and r: "visit_all h ns s0 = Inr s1"
    by (auto split: sum.splits)
  from visit_grows [OF v Cons.prems(2)] obtain m0 where m0: "idMap s0 = Some m0" "m \<subseteq>\<^sub>m m0"
    by blast
  from Cons.IH [OF r m0(1)] obtain m1 where "idMap s1 = Some m1" "m0 \<subseteq>\<^sub>m m1"
    by blast
  with m0(2) show ?case by (auto intro: map_le_trans)
qed

lemmas node_types = ELEMENT_NODE_def TEXT_NODE_def DOCUMENT_NODE_def DOCUMENT_TYPE_NODE_def DOCUMENT_FRAGMENT_NODE_def

lemma visit_step:
  assumes "idMap s0 = Some m"
  shows "visit h n s0 =
     (let parent' = (case parentElement (h n) of Some p \<Rightarrow> Some p | None \<Rightarrow> parentNode (h n));
          d = (if nodeType (h n) = DOCUMENT_TYPE_NODE then
                 \<lparr>tag = Some Constant_DocumentTag,
                  attributes' = Some [(''name'', doctype_name (h n)), (''publicId'', publicId (h n)),
                                      (''systemId'', systemId (h n))],
                  value' = None\<rparr>
               else if nodeType (h n) = TEXT_NODE then
                 \<lparr>tag = (if truthy_id (idMap_get m parent') then Some Constant_TextTag else None),
                  attributes' = None, value' = nodeValue (h n)\<rparr>
               else if nodeType (h n) = ELEMENT_NODE then
                 \<lparr>tag = (if tagName (h n) \<in> {''NOSCRIPT'', ''SCRIPT'', ''STYLE''} then None
                         else Some (tagName (h n))),
                  attributes' = Some (snapshot_getAttributes h n), value' = None\<rparr>
               else \<lparr>tag = None, attributes' = None, value' = None\<rparr>);
          m1 = (case m n of Some i \<Rightarrow> m | None \<Rightarrow> m(n \<mapsto> index s0));
          i = (case m n of Some i \<Rightarrow> i | None \<Rightarrow> index s0)
      in if truthy_tag (tag d) then
           Inr (s0\<lparr>idMap := Some m1,
                   index := (case m n of Some i \<Rightarrow> index s0 | None \<Rightarrow> index s0 + 1),
                   values' := values' s0 @
                     [pushed i (case parent' of None \<Rightarrow> Null | Some q \<Rightarrow> idMap_get m1 (Some q))
                        (case previousSibling (h n) of None \<Rightarrow> Null | Some q \<Rightarrow> idMap_get m1 (Some q))
                        d]\<rparr>)
         else Inr s0)"
  using assms
  by (auto simp: visit_def add_def getId_def pushed_def Let_def node_types split: option.splits)

text \<open>
  C2, as amended. On a document that is a finite tree, \<open>snapshot\<close> returns; it empties
  \<open>values\<close> and runs the body of the loop on the nodes level by level (the root, its
  children, their children, ...), every node of the tree once; the registry is not
  emptied: whatever it held before the run it still holds afterwards. The body of the
  loop, on any node and with a registry in place, classifies the node by its type (a
  document type, a text node with a registered parent, an element other than
  \<open>NOSCRIPT\<close>, \<open>SCRIPT\<close> and \<open>STYLE\<close>; anything else gets no tag) and, when the
  classification has a tag, takes the one path of \<open>add\<close>: the identifier of the node
  (the one it has, or the next of the counter) and one more record at the end of
  \<open>values\<close> with that classification, whether the node was registered before or not;
  a node without a tag leaves the state as it is.
\<close>

theorem snapshot_breadth_first:
  assumes "shaped h t" and "root t = doc"
  shows "snapshot h doc s = Some (visit_all h (concat (levels [t])) (s\<lparr>values' := []\<rparr>))
     \<and> mset (concat (levels [t])) = mset (nodes t)
     \<and> (\<forall>s1 m. snapshot h doc s = Some (Inr s1) \<and> idMap s = Some m
            \<longrightarrow> (\<exists>m1. idMap s1 = Some m1 \<and> m \<subseteq>\<^sub>m m1))
     \<and> (\<forall>n (s0::snapshot_state) m. idMap s0 = Some m \<longrightarrow>
           visit h n s0 =
             (let parent' = (case parentElement (h n) of Some p \<Rightarrow> Some p | None \<Rightarrow> parentNode (h n));
                  d = (if nodeType (h n) = DOCUMENT_TYPE_NODE then
                         \<lparr>tag = Some Constant_DocumentTag,
                          attributes' = Some [(''name'', doctype_name (h n)),
                                              (''publicId'', publicId (h n)),
                                              (''systemId'', systemId (h n))],
                          value' = None\<rparr>
                       else if nodeType (h n) = TEXT_NODE then
                         \<lparr>tag = (if truthy_id (idMap_get m parent') then Some Constant_TextTag
                                 else None),
                          attributes' = None, value' = nodeValue (h n)\<rparr>
                       else if nodeType (h n) = ELEMENT_NODE then
                         \<lparr>tag = (if tagName (h n) \<in> {''NOSCRIPT'', ''SCRIPT'', ''STYLE''} then None
                                 else Some (tagName (h n))),
                          attributes' = Some (snapshot_getAttributes h n), value' = None\<rparr>
                       else \<lparr>tag = None, attributes' = None, value' = None\<rparr>);
                  m1 = (case m n of Some i \<Rightarrow> m | None \<Rightarrow> m(n \<mapsto> index s0));
                  i = (case m n of Some i \<Rightarrow> i | None \<Rightarrow> index s0)
              in if truthy_tag (tag d) then
                   Inr (s0\<lparr>idMap := Some m1,
                           index := (case m n of Some i \<Rightarrow> index s0 | None \<Rightarrow> index s0 + 1),
                           values' := values' s0 @
                             [pushed i
                                (case parent' of None \<Rightarrow> Null | Some q \<Rightarrow> idMap_get m1 (Some q))
                                (case previousSibling (h n) of
                                   None \<Rightarrow> Null
                                 | Some q \<Rightarrow> idMap_get m1 (Some q))
                                d]\<rparr>)
                 else Inr s0))"
proof -
  have run: "snapshot h doc s = Some (visit_all h (concat (levels [t])) (s\<lparr>values' := []\<rparr>))"
    using traverse_loop_levels [of h "[t]" "s\<lparr>values' := []\<rparr>"] assms
    by (simp add: snapshot_def traverse_def)
  have all: "mset (concat (levels [t])) = mset (nodes t)"
    using levels_mset [of "[t]"] by simp
  have keeps: "\<exists>m1. idMap s1 = Some m1 \<and> m \<subseteq>\<^sub>m m1"
    if "snapshot h doc s = Some (Inr s1)" and "idMap s = Some m" for s1 m
    using that run visit_all_grows [of h "concat (levels [t])" "s\<lparr>values' := []\<rparr>" s1 m] by simp
  show ?thesis
  proof (intro conjI allI impI)
    show "snapshot h doc s = Some (visit_all h (concat (levels [t])) (s\<lparr>values' := []\<rparr>))"
      by (rule run)
  next
    show "mset (concat (levels [t])) = mset (nodes t)"
      by (rule all)
  next
    fix s1 m
    assume "snapshot h doc s = Some (Inr s1) \<and> idMap s = Some m"
    then show "\<exists>m1. idMap s1 = Some m1 \<and> m \<subseteq>\<^sub>m m1"
      using keeps by blast
  next
    fix n and s0 :: snapshot_state and m
    assume "idMap s0 = Some m"
    then show "visit h n s0 =
             (let parent' = (case parentElement (h n) of Some p \<Rightarrow> Some p | None \<Rightarrow> parentNode (h n));
                  d = (if nodeType (h n) = DOCUMENT_TYPE_NODE then
                         \<lparr>tag = Some Constant_DocumentTag,
                          attributes' = Some [(''name'', doctype_name (h n)),
                                              (''publicId'', publicId (h n)),
                                              (''systemId'', systemId (h n))],
                          value' = None\<rparr>
                       else if nodeType (h n) = TEXT_NODE then
                         \<lparr>tag = (if truthy_id (idMap_get m parent') then Some Constant_TextTag
                                 else None),
                          attributes' = None, value' = nodeValue (h n)\<rparr>
                       else if nodeType (h n) = ELEMENT_NODE then
                         \<lparr>tag = (if tagName (h n) \<in> {''NOSCRIPT'', ''SCRIPT'', ''STYLE''} then None
                                 else Some (tagName (h n))),
                          attributes' = Some (snapshot_getAttributes h n), value' = None\<rparr>
                       else \<lparr>tag = None, attributes' = None, value' = None\<rparr>);
                  m1 = (case m n of Some i \<Rightarrow> m | None \<Rightarrow> m(n \<mapsto> index s0));
                  i = (case m n of Some i \<Rightarrow> i | None \<Rightarrow> index s0)
              in if truthy_tag (tag d) then
                   Inr (s0\<lparr>idMap := Some m1,
                           index := (case m n of Some i \<Rightarrow> index s0 | None \<Rightarrow> index s0 + 1),
                           values' := values' s0 @
                             [pushed i
                                (case parent' of None \<Rightarrow> Null | Some q \<Rightarrow> idMap_get m1 (Some q))
                                (case previousSibling (h n) of
                                   None \<Rightarrow> Null
                                 | Some q \<Rightarrow> idMap_get m1 (Some q))
                                d]\<rparr>)
                 else Inr s0)"
      by (rule visit_step)
  qed
qed


lemmas snapshot_steps = visit_def add_def getId_def idMap_get_def pushed_def Let_def node_types

text \<open>
  C3, as amended. A document whose only child is a \<open>DIV\<close> with the single text child
  \<open>hello\<close>, in a session whose counter is \<open>index s\<close>: the snapshot from the reset state
  yields exactly two records, the \<open>DIV\<close> with the parent \<open>undefined\<close> (the document node
  gets no identifier) and the text with the \<open>DIV\<close>'s identifier as parent and the value
  \<open>hello\<close>; a second snapshot in the same session yields the same state again; after
  another \<open>reset\<close> the two identifiers are the next two of the counter.
\<close>

theorem snapshot_div_hello:
  assumes sh: "shaped h (Tree doc [Tree d [Tree t []]])"
    and tdoc: "nodeType (h doc) = DOCUMENT_NODE"
    and tdiv: "nodeType (h d) = ELEMENT_NODE" "tagName (h d) = ''DIV''"
      "parentElement (h d) = None" "parentNode (h d) = Some doc" "previousSibling (h d) = None"
    and ttext: "nodeType (h t) = TEXT_NODE" "nodeValue (h t) = Some ''hello''"
      "parentElement (h t) = Some d" "previousSibling (h t) = None"
    and ne: "doc \<noteq> d" "doc \<noteq> t" "d \<noteq> t"
    and pos: "0 < index s"
  shows "\<exists>s1 s2. snapshot h doc (reset s) = Some (Inr s1)
     \<and> values' s1 =
         [pushed (index s) Undefined Null
            \<lparr>tag = Some ''DIV'', attributes' = Some (snapshot_getAttributes h d), value' = None\<rparr>,
          pushed (index s + 1) (Num (index s)) Null
            \<lparr>tag = Some Constant_TextTag, attributes' = None, value' = Some ''hello''\<rparr>]
     \<and> id_of s1 doc = Undefined
     \<and> snapshot h doc s1 = Some (Inr s1)
     \<and> snapshot h doc (reset s1) = Some (Inr s2)
     \<and> map id' (values' s2) = [Some (index s + 2), Some (index s + 3)]"
proof -
  have run: "snapshot h doc s0 = Some (visit_all h [doc, d, t] (s0\<lparr>values' := []\<rparr>))" for s0
    using traverse_loop_levels [of h "[Tree doc [Tree d [Tree t []]]]" "s0\<lparr>values' := []\<rparr>"] sh
    by (simp add: snapshot_def traverse_def)
  let ?div = "pushed (index s) Undefined Null
            \<lparr>tag = Some ''DIV'', attributes' = Some (snapshot_getAttributes h d), value' = None\<rparr>"
  let ?text = "\<lambda>i p. pushed i p Null
            \<lparr>tag = Some Constant_TextTag, attributes' = None, value' = Some ''hello''\<rparr>"
  let ?s1 = "\<lparr>index = index s + 2, idMap = Some [d \<mapsto> index s, t \<mapsto> index s + 1],
              values' = [?div, ?text (index s + 1) (Num (index s))]\<rparr>"
  have first: "snapshot h doc (reset s) = Some (Inr ?s1)"
    using tdoc tdiv ttext ne pos
    by (simp add: run reset_def snapshot_steps Constant_TextTag_def)
  have again: "snapshot h doc ?s1 = Some (Inr ?s1)"
    using tdoc tdiv ttext ne pos
    by (simp add: run snapshot_steps Constant_TextTag_def)
  have fresh: "\<exists>s2. snapshot h doc (reset ?s1) = Some (Inr s2)
      \<and> map id' (values' s2) = [Some (index s + 2), Some (index s + 3)]"
    using tdoc tdiv ttext ne pos
    by (simp add: run reset_def snapshot_steps Constant_TextTag_def)
  have nodoc: "id_of ?s1 doc = Undefined"
    using ne by (simp add: id_of_def idMap_get_def)
  show ?thesis
    using first again fresh nodoc by auto
qed

lemma page_at:
  "page 10 = blank\<lparr>nodeType := 9, firstChild := Some 11, documentElement := Some 11\<rparr>"
  "page 11 = (element ''HTML'')\<lparr>parentNode := Some 10, firstChild := Some 12\<rparr>"
  "page 12 = (element ''DIV'')\<lparr>parentElement := Some 11, parentNode := Some 11, firstChild := Some 13\<rparr>"
  "page 13 = blank\<lparr>nodeType := 3, parentElement := Some 12, parentNode := Some 12,
                 ownerDocument := Some 10, nodeValue := Some ''hello''\<rparr>"
  by (simp_all add: page_def)

lemma hello_doc_at:
  "hello_doc 10 = blank\<lparr>nodeType := 9, firstChild := Some 12, documentElement := Some 12\<rparr>"
  "hello_doc 12 = (element ''DIV'')\<lparr>parentNode := Some 10, firstChild := Some 13\<rparr>"
  "hello_doc 13 = blank\<lparr>nodeType := 3, parentElement := Some 12, parentNode := Some 12,
                 ownerDocument := Some 10, nodeValue := Some ''hello''\<rparr>"
  by (simp_all add: hello_doc_def)

lemma family_at:
  "family 30 = blank\<lparr>nodeType := 9, firstChild := Some 31, documentElement := Some 31\<rparr>"
  "family 31 = (element ''HTML'')\<lparr>parentNode := Some 30, firstChild := Some 32\<rparr>"
  "family 32 = (element ''HEAD'')\<lparr>parentElement := Some 31, parentNode := Some 31,
                                firstChild := Some 34, nextSibling := Some 33\<rparr>"
  "family 33 = (element ''BODY'')\<lparr>parentElement := Some 31, parentNode := Some 31,
                                firstChild := Some 35, previousSibling := Some 32\<rparr>"
  "family 34 = (element ''META'')\<lparr>parentElement := Some 32, parentNode := Some 32\<rparr>"
  "family 35 = (element ''DIV'')\<lparr>parentElement := Some 33, parentNode := Some 33\<rparr>"
  by (simp_all add: family_def)

lemmas documents = page_at hello_doc_at element_def blank_def

lemma snapshot_page: "snapshot page 10 s = Some (visit_all page [10, 11, 12, 13] (s\<lparr>values' := []\<rparr>))"
  using traverse_loop_levels [of page "[Tree 10 [Tree 11 [Tree 12 [Tree 13 []]]]]" "s\<lparr>values' := []\<rparr>"]
  by (simp add: snapshot_def traverse_def documents)

lemma snapshot_hello_doc: "snapshot hello_doc 10 s = Some (visit_all hello_doc [10, 12, 13] (s\<lparr>values' := []\<rparr>))"
  using traverse_loop_levels [of hello_doc "[Tree 10 [Tree 12 [Tree 13 []]]]" "s\<lparr>values' := []\<rparr>"]
  by (simp add: snapshot_def traverse_def documents)

lemmas reading = outcome_def summary_def id_of_def and_then_def start_def reset_def initial_def
  snapshot_getAttributes_def Constant_TextTag_def


theorem snapshot_breadth_first_witness:
  "shaped family (Tree 30 [Tree 31 [Tree 32 [Tree 34 []], Tree 33 [Tree 35 []]]])
   \<and> nodes (Tree 30 [Tree 31 [Tree 32 [Tree 34 []], Tree 33 [Tree 35 []]]]) = [30, 31, 32, 34, 33, 35]
   \<and> outcome [30, 31, 32, 33, 34, 35] (snapshot family 30 (reset initial))
     = Some (Inr (6, [Undefined, Num 1, Num 2, Num 3, Num 4, Num 5],
         [pushed 1 Undefined Null \<lparr>tag = Some ''HTML'', attributes' = Some [], value' = None\<rparr>,
          pushed 2 (Num 1) Null \<lparr>tag = Some ''HEAD'', attributes' = Some [], value' = None\<rparr>,
          pushed 3 (Num 1) (Num 2) \<lparr>tag = Some ''BODY'', attributes' = Some [], value' = None\<rparr>,
          pushed 4 (Num 2) Null \<lparr>tag = Some ''META'', attributes' = Some [], value' = None\<rparr>,
          pushed 5 (Num 3) Null \<lparr>tag = Some ''DIV'', attributes' = Some [], value' = None\<rparr>]))
   \<and> outcome [31] (Some (visit family 31 \<lparr>index = 2, idMap = Some [31 \<mapsto> 1], values' = []\<rparr>))
     = Some (Inr (2, [Num 1],
         [pushed 1 Undefined Null \<lparr>tag = Some ''HTML'', attributes' = Some [], value' = None\<rparr>]))"
proof -
  let ?t = "Tree 30 [Tree 31 [Tree 32 [Tree 34 []], Tree 33 [Tree 35 []]]]"
  have sh: "shaped family ?t"
    by (simp add: family_at element_def blank_def)
  have r: "root ?t = 30"
    by simp
  have l: "concat (levels [?t]) = [30, 31, 32, 33, 34, 35]"
    by simp
  from snapshot_breadth_first [OF sh r, of "reset initial"]
  have run: "snapshot family 30 (reset initial)
      = Some (visit_all family [30, 31, 32, 33, 34, 35] (reset initial\<lparr>values' := []\<rparr>))"
    unfolding l by blast
  have "outcome [30, 31, 32, 33, 34, 35] (snapshot family 30 (reset initial))
     = Some (Inr (6, [Undefined, Num 1, Num 2, Num 3, Num 4, Num 5],
         [pushed 1 Undefined Null \<lparr>tag = Some ''HTML'', attributes' = Some [], value' = None\<rparr>,
          pushed 2 (Num 1) Null \<lparr>tag = Some ''HEAD'', attributes' = Some [], value' = None\<rparr>,
          pushed 3 (Num 1) (Num 2) \<lparr>tag = Some ''BODY'', attributes' = Some [], value' = None\<rparr>,
          pushed 4 (Num 2) Null \<lparr>tag = Some ''META'', attributes' = Some [], value' = None\<rparr>,
          pushed 5 (Num 3) Null \<lparr>tag = Some ''DIV'', attributes' = Some [], value' = None\<rparr>]))"
    unfolding run
    by (simp add: reading snapshot_steps family_at element_def blank_def)
  note out = this
  have known: "idMap \<lparr>index = 2, idMap = Some [31 \<mapsto> 1], values' = []\<rparr> = Some [31 \<mapsto> 1]"
    by simp
  note step = snapshot_breadth_first [OF sh r, THEN conjunct2, THEN conjunct2, THEN conjunct2,
      THEN spec, THEN spec, THEN spec, THEN mp, OF known]
  have again: "outcome [31] (Some (visit family 31 \<lparr>index = 2, idMap = Some [31 \<mapsto> 1], values' = []\<rparr>))
     = Some (Inr (2, [Num 1],
         [pushed 1 Undefined Null \<lparr>tag = Some ''HTML'', attributes' = Some [], value' = None\<rparr>]))"
    unfolding step
    by (simp add: reading idMap_get_def snapshot_getAttributes_def pushed_def Let_def node_types
        family_at element_def blank_def)
  from sh out again show ?thesis
    by simp
qed

text \<open>
  C2 as stated fails: \<open>start\<close> registers the root element of the example page under 1;
  the snapshot that follows gives the root's record that identifier and leaves the entry
  in the registry, while a run on the emptied registry allocates 2, 3 and 4.
\<close>

theorem snapshot_keeps_registry_counterexample:
  "outcome [10, 11, 12, 13] (Some (start page 10 initial))
     = Some (Inr (2, [Undefined, Num 1, Undefined, Undefined], []))
   \<and> outcome [10, 11, 12, 13] (and_then (Some (start page 10 initial)) (snapshot page 10))
     = Some (Inr (4, [Undefined, Num 1, Num 2, Num 3],
         [pushed 1 Undefined Null \<lparr>tag = Some ''HTML'', attributes' = Some [], value' = None\<rparr>,
          pushed 2 (Num 1) Null \<lparr>tag = Some ''DIV'', attributes' = Some [], value' = None\<rparr>,
          pushed 3 (Num 2) Null
            \<lparr>tag = Some Constant_TextTag, attributes' = None, value' = Some ''hello''\<rparr>]))
   \<and> outcome [10, 11, 12, 13] (and_then (Some (start page 10 initial)) (snapshot page 10 \<circ> reset))
     = Some (Inr (5, [Undefined, Num 2, Num 3, Num 4],
         [pushed 2 Undefined Null \<lparr>tag = Some ''HTML'', attributes' = Some [], value' = None\<rparr>,
          pushed 3 (Num 2) Null \<lparr>tag = Some ''DIV'', attributes' = Some [], value' = None\<rparr>,
          pushed 4 (Num 3) Null
            \<lparr>tag = Some Constant_TextTag, attributes' = None, value' = Some ''hello''\<rparr>]))"
  by (simp add: snapshot_page reading snapshot_steps documents)

theorem snapshot_div_hello_witness:
  "\<exists>s1. snapshot hello_doc 10 (reset initial) = Some (Inr s1)
     \<and> values' s1 =
         [pushed 1 Undefined Null \<lparr>tag = Some ''DIV'', attributes' = Some [], value' = None\<rparr>,
          pushed 2 (Num 1) Null
            \<lparr>tag = Some Constant_TextTag, attributes' = None, value' = Some ''hello''\<rparr>]
     \<and> snapshot hello_doc 10 s1 = Some (Inr s1)"
proof -
  have p: "shaped hello_doc (Tree 10 [Tree 12 [Tree 13 []]])"
    "nodeType (hello_doc 10) = DOCUMENT_NODE"
    "nodeType (hello_doc 12) = ELEMENT_NODE" "tagName (hello_doc 12) = ''DIV''"
    "parentElement (hello_doc 12) = None" "parentNode (hello_doc 12) = Some 10"
    "previousSibling (hello_doc 12) = None"
    "nodeType (hello_doc 13) = TEXT_NODE" "nodeValue (hello_doc 13) = Some ''hello''"
    "parentElement (hello_doc 13) = Some 12" "previousSibling (hello_doc 13) = None"
    "(10::nat) \<noteq> 12" "(10::nat) \<noteq> 13" "(12::nat) \<noteq> 13" "0 < index initial"
    by (simp_all add: documents node_types initial_def)
  have a: "snapshot_getAttributes hello_doc 12 = []" "index initial = 1" "(1::nat) + 1 = 2"
    by (simp_all add: snapshot_getAttributes_def documents initial_def)
  from snapshot_div_hello [OF p] show ?thesis
    unfolding a by blast
qed

text \<open>
  C3 as stated fails: with the \<open>DIV\<close> directly under the document its record has the
  parent \<open>undefined\<close> and the document has no identifier; a run after another \<open>reset\<close>
  gives the identifiers 3 and 4, not 1 and 2; and with a root element between the
  document and the \<open>DIV\<close> there are three records.
\<close>

theorem snapshot_div_hello_counterexample:
  "outcome [10, 12, 13] (snapshot hello_doc 10 (reset initial))
     = Some (Inr (3, [Undefined, Num 1, Num 2],
         [pushed 1 Undefined Null \<lparr>tag = Some ''DIV'', attributes' = Some [], value' = None\<rparr>,
          pushed 2 (Num 1) Null
            \<lparr>tag = Some Constant_TextTag, attributes' = None, value' = Some ''hello''\<rparr>]))
   \<and> outcome [10, 12, 13] (and_then (snapshot hello_doc 10 (reset initial)) (snapshot hello_doc 10 \<circ> reset))
     = Some (Inr (5, [Undefined, Num 3, Num 4],
         [pushed 3 Undefined Null \<lparr>tag = Some ''DIV'', attributes' = Some [], value' = None\<rparr>,
          pushed 4 (Num 3) Null
            \<lparr>tag = Some Constant_TextTag, attributes' = None, value' = Some ''hello''\<rparr>]))
   \<and> outcome [10, 11, 12, 13] (snapshot page 10 (reset initial))
     = Some (Inr (4, [Undefined, Num 1, Num 2, Num 3],
         [pushed 1 Undefined Null \<lparr>tag = Some ''HTML'', attributes' = Some [], value' = None\<rparr>,
          pushed 2 (Num 1) Null \<lparr>tag = Some ''DIV'', attributes' = Some [], value' = None\<rparr>,
          pushed 3 (Num 2) Null
            \<lparr>tag = Some Constant_TextTag, attributes' = None, value' = Some ''hello''\<rparr>]))"
  by (simp add: snapshot_page snapshot_hello_doc reading snapshot_steps documents)

subsection \<open>The node processor\<close>

lemma map_of_obj_set:
  "map_of (obj_set output k v) = (if k = ''__proto__'' then map_of output else (map_of output)(k \<mapsto> v))"
  by (simp add: obj_set_def update_conv')

lemma map_of_copy:
  "map_of (foldl (\<lambda>output a. if P (fst a) then obj_set output (fst a) (snd a) else output) acc xs) k =
     (if P k \<and> k \<noteq> ''__proto__''
      then (case map_of (rev xs) k of Some v \<Rightarrow> Some v | None \<Rightarrow> map_of acc k)
      else map_of acc k)"
proof (induction xs arbitrary: acc)
  case Nil
  then show ?case by simp
next
  case (Cons x xs)
  show ?case
    by (cases x) (auto simp: Cons.IH map_of_obj_set map_add_def split: option.splits)
qed

lemma js_in_own:
  "k \<notin> set Object_prototype \<Longrightarrow> js_in k output = (map_of output k \<noteq> None)"
  by (auto simp: js_in_def map_of_eq_None_iff)

lemma getAttributes_lookup:
  "map_of (getAttributes h e) k =
     (if k \<in> set IGNORE_ATTRIBUTES \<or> k = ''__proto__'' then None
      else case map_of (rev (attributes (h e))) k of
             Some v \<Rightarrow> Some v
           | None \<Rightarrow>
               if k = ''value'' \<and> tagName (h e) = ''INPUT'' \<and> input_value (h e) \<noteq> []
               then Some (input_value (h e)) else None)"
proof -
  let ?out = "foldl (\<lambda>output a. if fst a \<notin> set IGNORE_ATTRIBUTES then obj_set output (fst a) (snd a)
                      else output) [] (attributes (h e))"
  have out: "map_of ?out k =
     (if k \<notin> set IGNORE_ATTRIBUTES \<and> k \<noteq> ''__proto__'' then map_of (rev (attributes (h e))) k else None)" for k
    using map_of_copy [of "\<lambda>n. n \<notin> set IGNORE_ATTRIBUTES" "[]" "attributes (h e)" k]
    by (simp split: option.splits)
  have v: "''value'' \<notin> set IGNORE_ATTRIBUTES" "''value'' \<noteq> ''__proto__''"
    by (simp_all add: IGNORE_ATTRIBUTES_def)
  have jv: "js_in ''value'' ?out = (map_of ?out ''value'' \<noteq> None)"
    by (rule js_in_own) (simp add: Object_prototype_def)
  show ?thesis
    using v
    by (auto simp: getAttributes_def Let_def jv out map_of_obj_set
        Constant_Value_def Constant_InputTag_def split: option.splits)
qed

lemma snapshot_getAttributes_lookup:
  "map_of (snapshot_getAttributes h e) k =
     (if k = ''__proto__'' then None else map_of (rev (attributes (h e))) k)"
  using map_of_copy [of "\<lambda>n. True" "[]" "attributes (h e)" k]
  by (simp add: snapshot_getAttributes_def split: option.splits)

text \<open>
  C8, as amended. In the node processor the extracted dictionary holds, for a name that
  is not on the ignore list (and is not \<open>__proto__\<close>, which an assignment cannot create),
  the value of the element's attribute of that name (the last one read, should a name
  repeat); all other attributes are left out; and an \<open>INPUT\<close> element without a \<open>value\<close>
  attribute gets the entry \<open>value\<close> from its live value when that value is not empty.
  The extraction of the snapshot module copies every attribute: it has no ignore list
  and adds no \<open>value\<close>.
\<close>

theorem getAttributes_copies:
  "map_of (getAttributes h e) k =
     (if k \<in> set IGNORE_ATTRIBUTES \<or> k = ''__proto__'' then None
      else case map_of (rev (attributes (h e))) k of
             Some v \<Rightarrow> Some v
           | None \<Rightarrow>
               if k = ''value'' \<and> tagName (h e) = ''INPUT'' \<and> input_value (h e) \<noteq> []
               then Some (input_value (h e)) else None)
   \<and> map_of (snapshot_getAttributes h e) k =
       (if k = ''__proto__'' then None else map_of (rev (attributes (h e))) k)
   \<and> IGNORE_ATTRIBUTES = [''title'', ''alt'', ''onload'', ''onfocus'', ''onerror'',
        ''data-drupal-form-submit-last'', ''aria-label'']"
  using getAttributes_lookup [of h e k] snapshot_getAttributes_lookup [of h e k]
  by (simp add: IGNORE_ATTRIBUTES_def)

text \<open>
  C8 as stated fails: an \<open>INPUT\<close> with no \<open>value\<close> attribute and an empty live value gets
  no \<open>value\<close> entry; the snapshot module's extraction copies \<open>title\<close> and adds no
  \<open>value\<close> for a typed one; and an attribute named \<open>__proto__\<close> is not copied.
\<close>

theorem getAttributes_copies_counterexample:
  "getAttributes (alone ((element ''INPUT'')\<lparr>attributes := [(''type'', ''text''), (''title'', ''Name'')],
                                              input_value := []\<rparr>)) 20
     = [(''type'', ''text'')]
   \<and> snapshot_getAttributes (alone ((element ''INPUT'')\<lparr>attributes := [(''type'', ''text''), (''title'', ''Name'')],
                                              input_value := ''typed''\<rparr>)) 20
     = [(''type'', ''text''), (''title'', ''Name'')]
   \<and> getAttributes (alone ((element ''DIV'')\<lparr>attributes := [(''__proto__'', ''x'')]\<rparr>)) 20 = []"
  by (simp add: getAttributes_def snapshot_getAttributes_def alone_def element_def blank_def
      IGNORE_ATTRIBUTES_def obj_set_def js_in_def Constant_InputTag_def Constant_Value_def
      Object_prototype_def)

lemma map_of_rev_distinct:
  "distinct (map fst xs) \<Longrightarrow> (k, v) \<in> set xs \<Longrightarrow> map_of (rev xs) k = Some v"
  by (rule map_of_is_SomeI) (simp_all add: rev_map [symmetric])

lemmas node_constants = Constant_Property_def Constant_Name_def Constant_Content_def
  Constant_ogTitle_def Constant_ogType_def Constant_Generator_def Constant_Type_def
  Constant_JsonLD_def Constant_Value_def Constant_InputTag_def Constant_Src_def

lemma element_not_rerouted:
  "nodeType (h n) = ELEMENT_NODE \<Longrightarrow>
   processNode E h n source ts =
     (if source = ChildListRemove \<and> \<not> dom_has E n then ([], Inr None)
      else element_case E h n (\<not> dom_has E n) (ownerDocument (h n) \<noteq> Some (document E)) source)"
  by (simp add: processNode_def node_switch_def node_types Let_def)

text \<open>
  C9, as amended. A \<open>META\<close> element with \<open>property="og:title"\<close> and \<open>content="X"\<close>, in a
  notification that is not the removal of a node the mirror does not have: the processor
  makes exactly one call, the dimension log of the title with \<open>X\<close>, and no call that
  writes a node.
\<close>

theorem meta_logs_dimension:
  assumes "nodeType (h m) = ELEMENT_NODE" and "tagName (h m) = ''META''"
    and "namespaceURI (h m) \<noteq> Some Constant_SvgNamespace"
    and "distinct (map fst (attributes (h m)))"
    and "(''property'', ''og:title'') \<in> set (attributes (h m))"
    and "(''content'', X) \<in> set (attributes (h m))"
    and "\<not> (source = ChildListRemove \<and> \<not> dom_has E m)"
  shows "processNode E h m source ts = ([Dimension_log MetaTitle X], Inr None)"
proof -
  have p: "map_of (getAttributes h m) ''property'' = Some ''og:title''"
    using getAttributes_lookup [of h m "''property''"] map_of_rev_distinct [OF assms(4,5)]
    by (simp add: IGNORE_ATTRIBUTES_def)
  have c: "map_of (getAttributes h m) ''content'' = Some X"
    using getAttributes_lookup [of h m "''content''"] map_of_rev_distinct [OF assms(4,6)]
    by (simp add: IGNORE_ATTRIBUTES_def)
  have jp: "js_in ''property'' (getAttributes h m)" and jc: "js_in ''content'' (getAttributes h m)"
    using p c by (auto simp: js_in_def dest: map_of_SomeD intro: rev_image_eqI)
  show ?thesis
    using assms(1,2,3,7) p c jp jc
    by (simp add: element_not_rerouted element_case_def Let_def node_constants)
qed


theorem meta_logs_dimension_witness:
  "processNode quiet
     (alone ((element ''META'')\<lparr>attributes := [(''property'', ''og:title''), (''content'', ''X'')]\<rparr>))
     20 Discover 0
   = ([Dimension_log MetaTitle ''X''], Inr None)"
proof -
  let ?h = "alone ((element ''META'')\<lparr>attributes := [(''property'', ''og:title''), (''content'', ''X'')]\<rparr>)"
  have p: "nodeType (?h 20) = ELEMENT_NODE" "tagName (?h 20) = ''META''"
    "namespaceURI (?h 20) \<noteq> Some Constant_SvgNamespace"
    "distinct (map fst (attributes (?h 20)))"
    "(''property'', ''og:title'') \<in> set (attributes (?h 20))"
    "(''content'', ''X'') \<in> set (attributes (?h 20))"
    "\<not> (Discover = ChildListRemove \<and> \<not> dom_has quiet 20)"
    by (simp_all add: alone_def element_def blank_def node_types Constant_SvgNamespace_def)
  from meta_logs_dimension [where h = ?h and m = 20 and E = quiet and source = Discover, OF p]
  show ?thesis .
qed

text \<open>
  C9 as stated fails: on the removal of such a \<open>META\<close> element, which the mirror never
  holds, the processor returns at once and logs nothing.
\<close>

theorem meta_removed_counterexample:
  "processNode quiet
     (alone ((element ''META'')\<lparr>attributes := [(''property'', ''og:title''), (''content'', ''X'')]\<rparr>))
     20 ChildListRemove 0
   = ([], Inr None)"
  by (simp add: processNode_def quiet_def)

text \<open>
  C10. \<open>target\<close> resolves the node to the first element of the composed path when the
  event is composed, has the method and the path is not empty, and to the event's target
  otherwise; as the host gives a non-composed event a path that starts at its target,
  that is the first element of the path whenever there is one. A resolved document is
  replaced by its \<open>documentElement\<close>, so in a host where the \<open>documentElement\<close> of a
  document is not a document the result never is one.
\<close>

theorem target_resolution:
  "target h evt =
     (case (if evt_composed evt \<and> evt_composedPath evt \<noteq> None
            then (case evt_composedPath evt of Some (p # ps) \<Rightarrow> Some p | _ \<Rightarrow> evt_target evt)
            else evt_target evt) of
        None \<Rightarrow> Inl TypeError
      | Some n \<Rightarrow> Inr (if nodeType (h n) = DOCUMENT_NODE then documentElement (h n) else Some n))
   \<and> ((\<not> evt_composed evt \<longrightarrow>
          (\<forall>p ps. evt_composedPath evt = Some (p # ps) \<longrightarrow> evt_target evt = Some p)) \<longrightarrow>
        target h evt =
          (case (case evt_composedPath evt of Some (p # ps) \<Rightarrow> Some p | _ \<Rightarrow> evt_target evt) of
             None \<Rightarrow> Inl TypeError
           | Some n \<Rightarrow> Inr (if nodeType (h n) = DOCUMENT_NODE then documentElement (h n) else Some n)))
   \<and> ((\<forall>d e. nodeType (h d) = DOCUMENT_NODE \<and> documentElement (h d) = Some e
                \<longrightarrow> nodeType (h e) \<noteq> DOCUMENT_NODE) \<longrightarrow>
        (\<forall>r. target h evt = Inr (Some r) \<longrightarrow> nodeType (h r) \<noteq> DOCUMENT_NODE))"
  by (auto simp: target_def Let_def split: option.splits list.splits if_splits)

theorem target_resolution_witness:
  "target page \<lparr>evt_composed = True, evt_composedPath = Some [13, 12, 11, 10], evt_target = Some 12\<rparr>
     = Inr (Some 13)
   \<and> target page \<lparr>evt_composed = False, evt_composedPath = None, evt_target = Some 10\<rparr>
     = Inr (Some 11)
   \<and> nodeType (page 11) \<noteq> DOCUMENT_NODE"
proof -
  have wf: "\<forall>d e. nodeType (page d) = DOCUMENT_NODE \<and> documentElement (page d) = Some e
                \<longrightarrow> nodeType (page e) \<noteq> DOCUMENT_NODE"
    by (simp add: page_def element_def blank_def node_types)
  have a: "target page \<lparr>evt_composed = True, evt_composedPath = Some [13, 12, 11, 10], evt_target = Some 12\<rparr>
     = Inr (Some 13)"
    using target_resolution [of page "\<lparr>evt_composed = True, evt_composedPath = Some [13, 12, 11, 10], evt_target = Some 12\<rparr>"]
    by (simp add: documents node_types)
  have b: "target page \<lparr>evt_composed = False, evt_composedPath = None, evt_target = Some 10\<rparr>
     = Inr (Some 11)"
    using target_resolution [of page "\<lparr>evt_composed = False, evt_composedPath = None, evt_target = Some 10\<rparr>"]
    by (simp add: documents node_types)
  from target_resolution [of page "\<lparr>evt_composed = False, evt_composedPath = None, evt_target = Some 10\<rparr>"] wf b
  have "nodeType (page 11) \<noteq> DOCUMENT_NODE"
    by blast
  with a b show ?thesis by blast
qed


lemma rev_split:
  "xs = rev (dropWhile P (rev xs)) @ rev (takeWhile P (rev xs))"
proof -
  have "rev (takeWhile P (rev xs) @ dropWhile P (rev xs)) = rev (rev xs)"
    by (simp only: takeWhile_dropWhile_id)
  then show ?thesis
    by (simp only: rev_append rev_rev_ident)
qed

lemma trim_decomposition:
  "\<exists>a b. t = a @ trim t @ b \<and> list_all is_space a \<and> list_all is_space b"
proof -
  let ?u = "dropWhile is_space t"
  have 1: "t = takeWhile is_space t @ ?u"
    by simp
  have 2: "?u = trim t @ rev (takeWhile is_space (rev ?u))"
    unfolding trim_def by (rule rev_split)
  have 3: "list_all is_space (takeWhile is_space t)"
    by (simp add: list_all_iff) (meson set_takeWhileD)
  have 4: "list_all is_space (rev (takeWhile is_space (rev ?u)))"
    by (simp add: list_all_iff) (meson set_takeWhileD)
  from 1 2 have "t = takeWhile is_space t @ trim t @ rev (takeWhile is_space (rev ?u))"
    by metis
  with 3 4 show ?thesis by blast
qed

lemma trim_ends:
  assumes "trim t \<noteq> []"
  shows "\<not> is_space (hd (trim t)) \<and> \<not> is_space (last (trim t))"
proof -
  let ?u = "dropWhile is_space t"
  let ?v = "dropWhile is_space (rev ?u)"
  have v: "?v \<noteq> []" using assms by (simp add: trim_def)
  then have l: "\<not> is_space (hd ?v)" by (rule hd_dropWhile)
  have "last (trim t) = hd ?v"
    using v by (simp add: trim_def last_rev)
  with l have last: "\<not> is_space (last (trim t))" by simp
  have u: "?u \<noteq> []" using v by (metis dropWhile.simps(1) rev.simps(1))
  then have hu: "\<not> is_space (hd ?u)" by (rule hd_dropWhile)
  have "?u = trim t @ rev (takeWhile is_space (rev ?u))"
    unfolding trim_def by (rule rev_split)
  then have "hd ?u = hd (trim t)"
    using assms by (metis hd_append2)
  with hu last show ?thesis by simp
qed

text \<open>
  C5. The style extractor returns the trimmed text content, unless that is empty, or the
  element has a \<open>data-*\<close> attribute, or its \<open>id\<close> is not empty: then it returns what
  \<open>getCssRules\<close> makes of the sheet, the concatenation of the rule texts where the rules
  can be read (the empty string without a sheet). Trimming removes white space from both
  ends and nothing else.
\<close>

theorem getStyleValue_policy:
  "getStyleValue h style =
     (let static = (case textContent (h style) of None \<Rightarrow> [] | Some t \<Rightarrow> trim t)
      in if static = [] \<or> (\<exists>k ks. dataset (h style) = Some (k # ks)) \<or> element_id (h style) \<noteq> []
         then getCssRules (sheet (h style))
         else ([], Inr static))
   \<and> getCssRules None = ([], Inr [])
   \<and> (\<forall>rules. getCssRules (Some (Inr rules)) = ([], Inr (concat rules)))
   \<and> (\<forall>t. (\<exists>a b. t = a @ trim t @ b \<and> list_all is_space a \<and> list_all is_space b)
          \<and> (trim t \<noteq> [] \<longrightarrow> \<not> is_space (hd (trim t)) \<and> \<not> is_space (last (trim t))))"
proof -
  have t0: "trim [] = []" by (simp add: trim_def)
  have d: "(\<exists>k ks. dataset (h style) = Some (k # ks)) =
           ((case dataset (h style) of None \<Rightarrow> 0 | Some keys \<Rightarrow> length keys) > 0)"
    by (auto split: option.splits simp: neq_Nil_conv)
  have "getStyleValue h style =
     (let static = (case textContent (h style) of None \<Rightarrow> [] | Some t \<Rightarrow> trim t)
      in if static = [] \<or> (\<exists>k ks. dataset (h style) = Some (k # ks)) \<or> element_id (h style) \<noteq> []
         then getCssRules (sheet (h style))
         else ([], Inr static))"
    unfolding d by (auto simp: getStyleValue_def Let_def Constant_Empty_def t0 split: option.splits)
  moreover have "getCssRules None = ([], Inr [])"
    by (simp add: getCssRules_def)
  moreover have "\<forall>rules. getCssRules (Some (Inr rules)) = ([], Inr (concat rules))"
    by (simp add: getCssRules_def)
  ultimately show ?thesis
    using trim_decomposition trim_ends by blast
qed


lemma trim_example: "trim '' p{color:red} '' = ''p{color:red}''"
  by (simp add: trim_def is_space_def)

theorem getStyleValue_policy_witness:
  "getStyleValue (alone ((element ''STYLE'')\<lparr>textContent := Some '' p{color:red} '',
       element_id := ''theme'', sheet := Some (Inr [''p{color:blue}'', ''a{top:0}''])\<rparr>)) 20
     = ([], Inr ''p{color:blue}a{top:0}'')
   \<and> getStyleValue (alone ((element ''STYLE'')\<lparr>textContent := Some '' p{color:red} '',
       sheet := Some (Inr [''p{color:blue}'', ''a{top:0}''])\<rparr>)) 20
     = ([], Inr ''p{color:red}'')"
proof -
  let ?a = "alone ((element ''STYLE'')\<lparr>textContent := Some '' p{color:red} '',
       element_id := ''theme'', sheet := Some (Inr [''p{color:blue}'', ''a{top:0}''])\<rparr>)"
  let ?b = "alone ((element ''STYLE'')\<lparr>textContent := Some '' p{color:red} '',
       sheet := Some (Inr [''p{color:blue}'', ''a{top:0}''])\<rparr>)"
  have a: "getStyleValue ?a 20 = ([], Inr ''p{color:blue}a{top:0}'')"
    using getStyleValue_policy [of ?a 20]
    by (simp add: alone_def element_def blank_def trim_example)
  have b: "getStyleValue ?b 20 = ([], Inr ''p{color:red}'')"
    using getStyleValue_policy [of ?b 20]
    by (simp add: alone_def element_def blank_def trim_example)
  from a b show ?thesis by blast
qed


text \<open>
  C6. Reading the rules throws: a \<open>SecurityError\<close> is logged as a warning and the result
  is the empty string; any other error is logged and thrown again, and leaves the node
  processor with it. A \<open>SCRIPT\<close> element never makes the processor throw, and where
  \<open>JSON.parse\<close> fails on its text the processor makes no call at all.
\<close>

theorem error_policy:
  "getCssRules (Some (Inl (Thrown (Some ''SecurityError''))))
     = ([Internal_log CssRules Warning (Some ''SecurityError'')], Inr [])
   \<and> (\<forall>n. n \<noteq> Some ''SecurityError'' \<longrightarrow>
         getCssRules (Some (Inl (Thrown n))) = ([Internal_log CssRules Warning n], Inl (Thrown n)))
   \<and> (\<forall>n. n \<noteq> Some ''SecurityError'' \<and> nodeType (h node) = ELEMENT_NODE
            \<and> tagName (h node) = ''STYLE'' \<and> namespaceURI (h node) \<noteq> Some Constant_SvgNamespace
            \<and> textContent (h node) = None \<and> sheet (h node) = Some (Inl (Thrown n))
            \<and> \<not> (source = ChildListRemove \<and> \<not> dom_has E node) \<longrightarrow>
         processNode E h node source ts = ([Internal_log CssRules Warning n], Inl (Thrown n)))
   \<and> (nodeType (h node) = ELEMENT_NODE \<and> tagName (h node) = ''SCRIPT''
         \<and> namespaceURI (h node) \<noteq> Some Constant_SvgNamespace \<longrightarrow>
       snd (processNode E h node source ts) = Inr None
       \<and> (JSON_parse E (filter (\<lambda>c. c \<noteq> CHR 0x0D \<and> c \<noteq> CHR 0x0A) (script_text (h node))) = None
            \<longrightarrow> fst (processNode E h node source ts) = []))"
proof -
  have 1: "getCssRules (Some (Inl (Thrown (Some ''SecurityError''))))
     = ([Internal_log CssRules Warning (Some ''SecurityError'')], Inr [])"
    by (simp add: getCssRules_def Constant_Empty_def)
  have 2: "getCssRules (Some (Inl (Thrown n))) = ([Internal_log CssRules Warning n], Inl (Thrown n))"
    if "n \<noteq> Some ''SecurityError''" for n
    using that by (simp add: getCssRules_def)
  have 3: "processNode E h node source ts = ([Internal_log CssRules Warning n], Inl (Thrown n))"
    if "n \<noteq> Some ''SecurityError''" "nodeType (h node) = ELEMENT_NODE"
      "tagName (h node) = ''STYLE''" "namespaceURI (h node) \<noteq> Some Constant_SvgNamespace"
      "textContent (h node) = None" "sheet (h node) = Some (Inl (Thrown n))"
      "\<not> (source = ChildListRemove \<and> \<not> dom_has E node)" for n
    using that 2 [OF that(1)]
    by (simp add: element_not_rerouted element_case_def Let_def getStyleValue_def Constant_Empty_def)
  have 4: "snd (processNode E h node source ts) = Inr None
       \<and> (JSON_parse E (filter (\<lambda>c. c \<noteq> CHR 0x0D \<and> c \<noteq> CHR 0x0A) (script_text (h node))) = None
            \<longrightarrow> fst (processNode E h node source ts) = [])"
    if "nodeType (h node) = ELEMENT_NODE" "tagName (h node) = ''SCRIPT''"
      "namespaceURI (h node) \<noteq> Some Constant_SvgNamespace"
    using that
    by (auto simp: element_not_rerouted element_case_def Let_def split: option.splits)
  from 1 2 3 4 show ?thesis by blast
qed


theorem error_policy_witness:
  "processNode quiet
     (alone ((element ''STYLE'')\<lparr>sheet := Some (Inl (Thrown (Some ''InvalidAccessError'')))\<rparr>))
     20 Discover 0
     = ([Internal_log CssRules Warning (Some ''InvalidAccessError'')],
        Inl (Thrown (Some ''InvalidAccessError'')))
   \<and> processNode quiet
     (alone ((element ''SCRIPT'')\<lparr>attributes := [(''type'', ''application/ld+json'')],
                                   script_text := ''{name: ''\<rparr>))
     20 Discover 0
     = ([], Inr None)"
proof -
  let ?a = "alone ((element ''STYLE'')\<lparr>sheet := Some (Inl (Thrown (Some ''InvalidAccessError'')))\<rparr>)"
  let ?b = "alone ((element ''SCRIPT'')\<lparr>attributes := [(''type'', ''application/ld+json'')],
                                   script_text := ''{name: ''\<rparr>)"
  have a: "processNode quiet ?a 20 Discover 0
     = ([Internal_log CssRules Warning (Some ''InvalidAccessError'')],
        Inl (Thrown (Some ''InvalidAccessError'')))"
    using error_policy [of ?a 20 Discover quiet 0]
    by (simp add: alone_def element_def blank_def node_types Constant_SvgNamespace_def)
  have "snd (processNode quiet ?b 20 Discover 0) = Inr None \<and> fst (processNode quiet ?b 20 Discover 0) = []"
    using error_policy [of ?b 20 Discover quiet 0]
    by (simp add: alone_def element_def blank_def node_types Constant_SvgNamespace_def quiet_def)
  then have b: "processNode quiet ?b 20 Discover 0 = ([], Inr None)"
    by (simp add: prod_eq_iff)
  from a b show ?thesis by blast
qed



















subsection \<open>Teardown of a frame\<close>









end
